theory Spec2Isabelle
  imports Main "HOL-Library.Word" "HOL-Library.Signed_Division"
begin

unbundle bit_operations_syntax

section \<open>Bit reader (nal\_bitstream)\<close>

text \<open>
  The reader of \<^verbatim>\<open>BitstreamConverter.cpp\<close> walks a byte span with two pointers
  (\<^verbatim>\<open>data\<close>, \<^verbatim>\<open>end\<close>), keeps the number of unread bits of the cache in
  \<^verbatim>\<open>head\<close> and the bytes loaded so far in a 64-bit \<^verbatim>\<open>cache\<close>. The model keeps
  the bytes between \<^verbatim>\<open>data\<close> and \<^verbatim>\<open>end\<close> as a list. \<^verbatim>\<open>head\<close> and the bit
  counts are C ints that never go negative here, so they are naturals.
\<close>

type_synonym u8 = "8 word"
type_synonym u32 = "32 word"
type_synonym u64 = "64 word"

record nal_bitstream =
  data :: "u8 list"
  head :: nat
  cache :: u64

definition nal_bs_init :: "u8 list \<Rightarrow> nal_bitstream" where
  "nal_bs_init d = \<lparr>data = d, head = 0, cache = 0xffffffff\<rparr>"

text \<open>
  The cache-filling loop of \<^verbatim>\<open>nal_bs_read\<close>. It returns the reader and the bit count
  \<^verbatim>\<open>n\<close>, which the loop lowers to \<^verbatim>\<open>head\<close> when the bytes run out. A byte 0x03 met
  with \<^verbatim>\<open>check_three_byte\<close> set and the low 16 cache bits zero is skipped, and the byte
  after it goes to the cache without that test (the \<^verbatim>\<open>goto next_byte\<close>).
\<close>

function nal_bs_fill :: "nal_bitstream \<Rightarrow> nat \<Rightarrow> nal_bitstream \<times> nat" where
  "nal_bs_fill bs n =
     (if head bs < n then
        (case data bs of
           [] \<Rightarrow> (bs, head bs)
         | a # d \<Rightarrow>
             if a = 0x03 \<and> cache bs AND 0xffff = 0 then
               (case d of
                  [] \<Rightarrow> (bs\<lparr>data := []\<rparr>, head bs)
                | b # d' \<Rightarrow>
                    nal_bs_fill (bs\<lparr>data := d', cache := push_bit 8 (cache bs) OR ucast b,
                                    head := head bs + 8\<rparr>) n)
             else
               nal_bs_fill (bs\<lparr>data := d, cache := push_bit 8 (cache bs) OR ucast a,
                               head := head bs + 8\<rparr>) n)
      else (bs, n))"
  by pat_completeness auto
termination
  by (relation "measure (\<lambda>(bs, n). length (data bs))") auto

declare nal_bs_fill.simps [simp del]

definition nal_bs_read :: "nal_bitstream \<Rightarrow> nat \<Rightarrow> u32 \<times> nal_bitstream" where
  "nal_bs_read bs n =
     (if n = 0 then (0, bs)
      else
        let (bs', n') = nal_bs_fill bs n;
            shift = head bs' - n';
            res = (if shift > 0 then ucast (drop_bit shift (cache bs')) else ucast (cache bs'));
            res' = (if n' < 32 then res AND (push_bit n' 1 - 1) else res)
        in (res', bs'\<lparr>head := shift\<rparr>))"

definition nal_bs_eos :: "nal_bitstream \<Rightarrow> bool" where
  "nal_bs_eos bs \<longleftrightarrow> data bs = [] \<and> head bs = 0"

text \<open>The \<^verbatim>\<open>while\<close> loop of \<^verbatim>\<open>nal_bs_read_ue\<close>: the bit is read first, then the tests.\<close>

function nal_bs_ue_zeros :: "nal_bitstream \<Rightarrow> nat \<Rightarrow> nat \<times> nal_bitstream" where
  "nal_bs_ue_zeros bs i =
     (let (b, bs') = nal_bs_read bs 1
      in if b = 0 \<and> \<not> nal_bs_eos bs' \<and> i < 31 then nal_bs_ue_zeros bs' (i + 1) else (i, bs'))"
  by pat_completeness auto
termination
  by (relation "measure (\<lambda>(bs, i). 31 - i)") auto

declare nal_bs_ue_zeros.simps [simp del]

text \<open>
  The result is a C int computed as \<^verbatim>\<open>(1 << i) - 1 + nal_bs_read(bs, i)\<close>; it is kept as
  the 32-bit pattern and read as signed with \<^const>\<open>sint\<close>.
\<close>

definition nal_bs_read_ue :: "nal_bitstream \<Rightarrow> u32 \<times> nal_bitstream" where
  "nal_bs_read_ue bs =
     (let (i, bs1) = nal_bs_ue_zeros bs 0;
          (v, bs2) = nal_bs_read bs1 i
      in (push_bit i 1 - 1 + v, bs2))"

text \<open>
  \<^verbatim>\<open>i = (i + 1) / 2 * (i & 1 ? 1 : -1)\<close> on 32-bit ints: the sum wraps, the division
  truncates towards zero.
\<close>

definition nal_bs_read_se :: "nal_bitstream \<Rightarrow> u32 \<times> nal_bitstream" where
  "nal_bs_read_se bs =
     (let (i, bs') = nal_bs_read_ue bs;
          q = (word_of_int (sint (i + 1) sdiv 2) :: u32)
      in (q * (if i AND 1 \<noteq> 0 then 1 else - 1), bs'))"

text \<open>
  The same reads over a span whose \<^verbatim>\<open>end\<close> lies beyond the bytes that are known.
  There \<^verbatim>\<open>data\<close> stays below \<^verbatim>\<open>end\<close>, so \<^verbatim>\<open>nal_bs_eos\<close> is false and the loop of
  \<^verbatim>\<open>nal_bs_read\<close> never lowers \<^verbatim>\<open>n\<close>; a read that fetches a byte after the known ones has
  no result here. Bytes are fetched only when \<^verbatim>\<open>head < n\<close>.
\<close>

definition nal_bs_read_open :: "nal_bitstream \<Rightarrow> nat \<Rightarrow> (u32 \<times> nal_bitstream) option" where
  "nal_bs_read_open bs n =
     (if n = 0 then Some (0, bs)
      else if snd (nal_bs_fill bs n) = n then Some (nal_bs_read bs n)
      else None)"

function nal_bs_ue_zeros_open :: "nal_bitstream \<Rightarrow> nat \<Rightarrow> (nat \<times> nal_bitstream) option" where
  "nal_bs_ue_zeros_open bs i =
     (case nal_bs_read_open bs 1 of
        None \<Rightarrow> None
      | Some (b, bs') \<Rightarrow>
          if b = 0 \<and> i < 31 then nal_bs_ue_zeros_open bs' (i + 1) else Some (i, bs'))"
  by pat_completeness auto
termination
  by (relation "measure (\<lambda>(bs, i). 31 - i)") auto

declare nal_bs_ue_zeros_open.simps [simp del]

definition nal_bs_read_ue_open :: "nal_bitstream \<Rightarrow> u32 option" where
  "nal_bs_read_ue_open bs =
     (case nal_bs_ue_zeros_open bs 0 of
        None \<Rightarrow> None
      | Some (i, bs1) \<Rightarrow>
          (case nal_bs_read_open bs1 i of
             None \<Rightarrow> None
           | Some (v, bs2) \<Rightarrow> Some (push_bit i 1 - 1 + v)))"

subsection \<open>The bits a reader still holds\<close>

text \<open>
  \<open>wbits h w\<close> lists the low \<open>h\<close> bits of a word, most significant first.
  \<open>obs c d\<close> lists what the filling loop will fetch from the bytes \<open>d\<close> when the
  cache is \<open>c\<close>: \<open>Some b\<close> for a byte that enters the cache, \<open>None\<close> for a final
  0x03 that is skipped with nothing after it. \<open>bits_of\<close> is the sequence of bits that
  reads can still deliver.
\<close>

definition wbits :: "nat \<Rightarrow> 'a::len word \<Rightarrow> bool list" where
  "wbits h w = map (bit w) (rev [0..<h])"

fun obs :: "u64 \<Rightarrow> u8 list \<Rightarrow> u8 option list" where
  "obs c [] = []"
| "obs c (a # d) =
     (if a = 0x03 \<and> c AND 0xffff = 0 then
        (case d of [] \<Rightarrow> [None] | b # d' \<Rightarrow> Some b # obs (push_bit 8 c OR ucast b) d')
      else Some a # obs (push_bit 8 c OR ucast a) d)"

fun obs_bits :: "u8 option \<Rightarrow> bool list" where
  "obs_bits None = []"
| "obs_bits (Some b) = wbits 8 b"

definition bits_of :: "nal_bitstream \<Rightarrow> bool list" where
  "bits_of bs = wbits (head bs) (cache bs) @ concat (map obs_bits (obs (cache bs) (data bs)))"

text \<open>The number written by a list of bits, most significant first.\<close>

definition bl_nat :: "bool list \<Rightarrow> nat" where
  "bl_nat xs = foldl (\<lambda>a b. 2 * a + of_bool b) 0 xs"

definition lead_zeros :: "bool list \<Rightarrow> nat" where
  "lead_zeros xs = length (takeWhile Not xs)"

text \<open>A sequence of reads, and the values it returns.\<close>

datatype bs_op = ReadBits nat | ReadUe | ReadSe

fun run_op :: "bs_op \<Rightarrow> nal_bitstream \<Rightarrow> u32 \<times> nal_bitstream" where
  "run_op (ReadBits n) bs = nal_bs_read bs n"
| "run_op ReadUe bs = nal_bs_read_ue bs"
| "run_op ReadSe bs = nal_bs_read_se bs"

fun run_ops :: "bs_op list \<Rightarrow> nal_bitstream \<Rightarrow> u32 list" where
  "run_ops [] bs = []"
| "run_ops (x # xs) bs = (let (v, bs') = run_op x bs in v # run_ops xs bs')"

text \<open>
  Two readers have the same view when they agree on \<^verbatim>\<open>head\<close> and \<^verbatim>\<open>cache\<close> and
  their remaining bytes will be fetched alike.
\<close>

definition same_view :: "nal_bitstream \<Rightarrow> nal_bitstream \<Rightarrow> bool" where
  "same_view a b \<longleftrightarrow>
     head a = head b \<and> cache a = cache b \<and> obs (cache a) (data a) = obs (cache b) (data b)"

text \<open>
  What a refill leaves: the same bits, and either the cache holds the \<open>n\<close> bits asked
  for, or the data is used up and the count is cut to what the cache holds.
\<close>

definition fill_ok :: "nal_bitstream \<Rightarrow> nat \<Rightarrow> nal_bitstream \<times> nat \<Rightarrow> bool" where
  "fill_ok bs n r \<longleftrightarrow>
     bits_of (fst r) = bits_of bs \<and>
     ((n \<le> head (fst r) \<and> snd r = n) \<or> (head (fst r) < n \<and> snd r = head (fst r) \<and> data (fst r) = []))"

section \<open>The converter (CBitstreamConverter)\<close>

subsection \<open>NAL unit types and the stream hints\<close>

datatype AVCodecID = AV_CODEC_ID_H264 | AV_CODEC_ID_HEVC | AV_CODEC_ID_OTHER

definition AVC_NAL_SLICE :: u8 where "AVC_NAL_SLICE = 1"
definition AVC_NAL_IDR_SLICE :: u8 where "AVC_NAL_IDR_SLICE = 5"
definition AVC_NAL_SEI :: u8 where "AVC_NAL_SEI = 6"
definition AVC_NAL_SPS :: u8 where "AVC_NAL_SPS = 7"
definition AVC_NAL_PPS :: u8 where "AVC_NAL_PPS = 8"
definition AVC_NAL_END_SEQUENCE :: u8 where "AVC_NAL_END_SEQUENCE = 10"

definition HEVC_NAL_TRAIL_N :: u8 where "HEVC_NAL_TRAIL_N = 0"
definition HEVC_NAL_TRAIL_R :: u8 where "HEVC_NAL_TRAIL_R = 1"
definition HEVC_NAL_TSA_N :: u8 where "HEVC_NAL_TSA_N = 2"
definition HEVC_NAL_TSA_R :: u8 where "HEVC_NAL_TSA_R = 3"
definition HEVC_NAL_STSA_N :: u8 where "HEVC_NAL_STSA_N = 4"
definition HEVC_NAL_STSA_R :: u8 where "HEVC_NAL_STSA_R = 5"
definition HEVC_NAL_RADL_N :: u8 where "HEVC_NAL_RADL_N = 6"
definition HEVC_NAL_RADL_R :: u8 where "HEVC_NAL_RADL_R = 7"
definition HEVC_NAL_RASL_N :: u8 where "HEVC_NAL_RASL_N = 8"
definition HEVC_NAL_RASL_R :: u8 where "HEVC_NAL_RASL_R = 9"
definition HEVC_NAL_BLA_W_LP :: u8 where "HEVC_NAL_BLA_W_LP = 16"
definition HEVC_NAL_BLA_W_RADL :: u8 where "HEVC_NAL_BLA_W_RADL = 17"
definition HEVC_NAL_BLA_N_LP :: u8 where "HEVC_NAL_BLA_N_LP = 18"
definition HEVC_NAL_IDR_W_RADL :: u8 where "HEVC_NAL_IDR_W_RADL = 19"
definition HEVC_NAL_IDR_N_LP :: u8 where "HEVC_NAL_IDR_N_LP = 20"
definition HEVC_NAL_CRA_NUT :: u8 where "HEVC_NAL_CRA_NUT = 21"
definition HEVC_NAL_VPS :: u8 where "HEVC_NAL_VPS = 32"
definition HEVC_NAL_SPS :: u8 where "HEVC_NAL_SPS = 33"
definition HEVC_NAL_PPS :: u8 where "HEVC_NAL_PPS = 34"
definition HEVC_NAL_EOS_NUT :: u8 where "HEVC_NAL_EOS_NUT = 36"
definition HEVC_NAL_SEI_PREFIX :: u8 where "HEVC_NAL_SEI_PREFIX = 39"
definition HEVC_NAL_UNSPEC62 :: u8 where "HEVC_NAL_UNSPEC62 = 62"
definition HEVC_NAL_UNSPEC63 :: u8 where "HEVC_NAL_UNSPEC63 = 63"

definition SEI_RECOVERY_POINT :: nat where "SEI_RECOVERY_POINT = 6"

datatype DOVIMode = MODE_NONE | MODE_TOMEL | MODE_TO81

datatype DOVIELType = TYPE_NONE | TYPE_FEL | TYPE_MEL

datatype StreamHdrType =
  HDR_TYPE_NONE | HDR_TYPE_HDR10 | HDR_TYPE_HLG | HDR_TYPE_DOLBYVISION | HDR_TYPE_HDR10PLUS

text \<open>
  The fields of ffmpeg's \<^verbatim>\<open>AVDOVIDecoderConfigurationRecord\<close> that the converter writes;
  all are bytes, the flags too.
\<close>

record dovi_record =
  dv_version_major :: u8
  dv_version_minor :: u8
  dv_profile :: u8
  dv_level :: u8
  rpu_present_flag :: u8
  el_present_flag :: u8
  bl_present_flag :: u8
  dv_bl_signal_compatibility_id :: u8

text \<open>
  The fields of \<^verbatim>\<open>CDVDStreamInfo\<close> that the converter touches. \<^verbatim>\<open>extradata\<close> is
  \<open>None\<close> when \<^verbatim>\<open>GetData()\<close> is \<^verbatim>\<open>NULL\<close>. The converter holds the hints by
  reference; the model keeps them inside the converter state.
\<close>

record stream_hints =
  codec :: AVCodecID
  extradata :: "u8 list option"
  hdrType :: StreamHdrType
  dovi :: dovi_record
  dovi_el_type :: DOVIELType

text \<open>
  \<^verbatim>\<open>HDRStaticMetadataInfo\<close>. The numeric types are declared outside the source at
  hand; the values are only stored and compared for equality.
\<close>

record hdr_static_info =
  has_mdcv_metadata :: bool
  max_lum :: nat
  min_lum :: nat
  colour_primaries :: string
  has_cll_metadata :: bool
  max_cll :: nat
  max_fall :: nat

record omx_bitstream_ctx =
  length_size :: nat
  first_idr :: u8
  idr_sps_pps_seen :: u8
  sps_pps_data :: "u8 list option"
  size :: nat

text \<open>
  The members of \<^verbatim>\<open>CBitstreamConverter\<close>. A pointer member is \<open>None\<close> when
  \<^verbatim>\<open>NULL\<close>. The process-info sink \<^verbatim>\<open>m_dataCacheCore\<close> is only written to and never read
  back, so it is left out.
\<close>

record conv =
  m_hints :: stream_hints
  m_convertBuffer :: "u8 list option"
  m_convertSize :: nat
  m_inputBuffer :: "u8 list option"
  m_inputSize :: nat
  m_sps_pps_size :: nat
  m_sps_pps_context :: omx_bitstream_ctx
  m_convert_bitstream :: bool
  m_to_annexb :: bool
  m_combine :: bool
  m_extraData :: "u8 list option"
  m_convert_3byteTo4byteNALSize :: bool
  m_convert_bytestream :: bool
  m_codec :: AVCodecID
  m_intial_hdrType :: StreamHdrType
  m_start_decode :: bool
  m_convert_dovi :: DOVIMode
  m_removeDovi :: bool
  m_removeHdr10Plus :: bool
  m_convert_Hdr10Plus :: bool
  m_prefer_Hdr10Plus_conversion :: bool
  m_dual_priority_Hdr10Plus :: bool
  m_convert_Hdr10Plus_peak_brightness_source :: nat
  m_first_frame :: bool
  m_hdrStaticMetadataInfo :: hdr_static_info

text \<open>
  What the converter calls outside \<^verbatim>\<open>BitstreamConverter.cpp\<close>, as parameters of the
  model; every theorem holds for all of them. \<open>'m\<close> is \<^verbatim>\<open>Hdr10PlusMetadata\<close>.
  \<^item> \<^verbatim>\<open>CHevcSei\<close> (HevcSei.h), applied to the bytes of a SEI NAL: the mastering
    display colour volume as (maxLuminance, minLuminance, the text of
    \<^verbatim>\<open>MasteringDisplayColourVolumeText\<close>), the content light level as
    (maxContentLightLevel, maxFrameAverageLightLevel), the HDR10+ metadata, and the
    NAL with the HDR10+ message removed;
  \<^item> \<^verbatim>\<open>create_rpu_nalu_for_hdr10plus\<close> (HDR10PlusConvert.h);
  \<^item> libdovi behind \<^verbatim>\<open>convert_dovi_rpu_nal\<close> (the converted RPU, \<open>None\<close> for a
    \<^verbatim>\<open>NULL\<close> result) and behind \<^verbatim>\<open>get_dovi_rpu_info\<close> (the EL type it stores on the
    first frame);
  \<^item> ffmpeg: \<^verbatim>\<open>AV_INPUT_BUFFER_PADDING_SIZE\<close>, whether \<^verbatim>\<open>avio_open_dyn_buf\<close> succeeds,
    and the AVIO buffer that \<^verbatim>\<open>avc_parse_nal_units\<close> and \<^verbatim>\<open>isom_write_avcc\<close> fill:
    the two enter by the bytes they leave in it (\<open>None\<close> when \<^verbatim>\<open>isom_write_avcc\<close>
    stops at its \<^verbatim>\<open>assert(0)\<close>).
\<close>

record 'm ext =
  sei_mdcv :: "u8 list \<Rightarrow> (nat \<times> nat \<times> string) option"
  sei_cll :: "u8 list \<Rightarrow> (nat \<times> nat) option"
  sei_hdr10plus :: "u8 list \<Rightarrow> 'm option"
  sei_remove_hdr10plus :: "u8 list \<Rightarrow> u8 list"
  create_rpu_nalu_for_hdr10plus :: "'m \<Rightarrow> nat \<Rightarrow> hdr_static_info \<Rightarrow> u8 list"
  convert_dovi_rpu_nal :: "u8 list \<Rightarrow> DOVIMode \<Rightarrow> u8 list option"
  rpu_el_type :: "u8 list \<Rightarrow> DOVIELType"
  padding_size :: nat
  avio_open_dyn_buf_ok :: bool
  avc_parse_nal_units :: "u8 list \<Rightarrow> u8 list"
  isom_write_avcc :: "u8 list \<Rightarrow> u8 list option"

subsection \<open>BitstreamAllocAndCopy\<close>

text \<open>
  The output buffer \<^verbatim>\<open>(*poutbuf, *poutbuf_size)\<close> is one list of bytes: the size is its
  length and \<^verbatim>\<open>NULL\<close> with size 0 is the empty list. \<^verbatim>\<open>av_realloc\<close> is taken to
  succeed. \<open>sps_pps\<close> is the empty list for \<^verbatim>\<open>(NULL, 0)\<close>.

  Modelled from the spec: \<^verbatim>\<open>BS_WB32\<close> and \<^verbatim>\<open>BS_RB32\<close>, macros of a header that is not
  among the sources, write and read a 32-bit value big-endian (the spec's 4-byte start
  code \<open>00 00 00 01\<close> is \<^verbatim>\<open>BS_WB32(p, 1)\<close>); \<^verbatim>\<open>BS_RB24\<close> reads 24 bits likewise.
\<close>

definition BS_RB32 :: "u8 list \<Rightarrow> u32" where
  "BS_RB32 b = push_bit 24 (ucast (b ! 0)) OR push_bit 16 (ucast (b ! 1))
               OR push_bit 8 (ucast (b ! 2)) OR ucast (b ! 3)"

definition BS_RB24 :: "u8 list \<Rightarrow> u32" where
  "BS_RB24 b = push_bit 16 (ucast (b ! 0)) OR push_bit 8 (ucast (b ! 1)) OR ucast (b ! 2)"

definition BS_WB32 :: "u32 \<Rightarrow> u8 list" where
  "BS_WB32 v = [ucast (drop_bit 24 v), ucast (drop_bit 16 v), ucast (drop_bit 8 v), ucast v]"

definition BitstreamAllocAndCopy :: "u8 list \<Rightarrow> u8 list \<Rightarrow> u8 list \<Rightarrow> u8 \<Rightarrow> u8 list" where
  "BitstreamAllocAndCopy poutbuf sps_pps inp nal_type =
     (let offset = length poutbuf;
          nal_header_size = (if nal_type = HEVC_NAL_UNSPEC62 then 4 else if offset \<noteq> 0 then 3 else (4::nat));
          header = (if offset = 0 then BS_WB32 1
                    else if nal_header_size = 4 then [0, 0, 0, 1]
                    else [0, 0, 1])
      in poutbuf @ sps_pps @ header @ inp)"

definition BitstreamAllocAndCopy32 :: "u8 list \<Rightarrow> u8 list \<Rightarrow> u8 \<Rightarrow> u8 list" where
  "BitstreamAllocAndCopy32 poutbuf inp nal_type =
     (let offset = length poutbuf;
          nal_header_size = (if nal_type = HEVC_NAL_UNSPEC62 then 4
                             else if nal_type = HEVC_NAL_UNSPEC63 then 5
                             else if offset \<noteq> 0 then 3 else (4::nat));
          header = (if nal_header_size = 5 then [0, 0, 1, push_bit 1 HEVC_NAL_UNSPEC63, 1]
                    else if nal_header_size = 4 then [0, 0, 0, 1]
                    else [0, 0, 1])
      in poutbuf @ header @ inp)"

subsection \<open>Single-track conversion\<close>

definition IsIDR :: "AVCodecID \<Rightarrow> u8 \<Rightarrow> bool" where
  "IsIDR c unit_type =
     (case c of
        AV_CODEC_ID_H264 \<Rightarrow> unit_type = AVC_NAL_IDR_SLICE
      | AV_CODEC_ID_HEVC \<Rightarrow>
          unit_type = HEVC_NAL_IDR_W_RADL \<or> unit_type = HEVC_NAL_IDR_N_LP \<or>
          unit_type = HEVC_NAL_CRA_NUT
      | AV_CODEC_ID_OTHER \<Rightarrow> False)"

definition IsSlice :: "AVCodecID \<Rightarrow> u8 \<Rightarrow> bool" where
  "IsSlice c unit_type =
     (case c of
        AV_CODEC_ID_H264 \<Rightarrow> unit_type = AVC_NAL_SLICE
      | AV_CODEC_ID_HEVC \<Rightarrow>
          unit_type = HEVC_NAL_TRAIL_R \<or> unit_type = HEVC_NAL_TRAIL_N \<or>
          unit_type = HEVC_NAL_TSA_N \<or> unit_type = HEVC_NAL_TSA_R \<or>
          unit_type = HEVC_NAL_STSA_N \<or> unit_type = HEVC_NAL_STSA_R \<or>
          unit_type = HEVC_NAL_BLA_W_LP \<or> unit_type = HEVC_NAL_BLA_W_RADL \<or>
          unit_type = HEVC_NAL_BLA_N_LP \<or> unit_type = HEVC_NAL_CRA_NUT \<or>
          unit_type = HEVC_NAL_RADL_N \<or> unit_type = HEVC_NAL_RADL_R \<or>
          unit_type = HEVC_NAL_RASL_N \<or> unit_type = HEVC_NAL_RASL_R
      | AV_CODEC_ID_OTHER \<Rightarrow> False)"

text \<open>
  \<^verbatim>\<open>has_sei_recovery_point(p, end)\<close>. \<open>mem\<close> holds the bytes from \<^verbatim>\<open>p\<close> to the end of
  the packet and \<open>e\<close> is \<^verbatim>\<open>end - p\<close>. The source reads the type and size bytes without
  a bound and hands the payload to the bit reader by its declared size, and the bit
  reader fetches bytes as it needs them. The result is \<open>None\<close> only where a byte is
  fetched that lies outside the packet, whose effect the source leaves to the memory
  that follows.
\<close>

function sei_ff_sum :: "u8 list \<Rightarrow> nat \<Rightarrow> nat \<Rightarrow> (nat \<times> nat) option" where
  "sei_ff_sum mem offset acc =
     (if offset < length mem then
        (if mem ! offset = 0xFF then sei_ff_sum mem (offset + 1) (acc + 255)
         else Some (acc + unat (mem ! offset), offset + 1))
      else None)"
  by pat_completeness auto
termination
  by (relation "measure (\<lambda>(mem, offset, acc). length mem - offset)") auto

declare sei_ff_sum.simps [simp del]

text \<open>
  \<^verbatim>\<open>nal_bs_init(&bs, p + offset, ps); return nal_bs_read_ue(&bs) >= 0;\<close> The span of
  \<open>ps\<close> bytes may end after the packet.
\<close>

definition sei_recovery_cnt :: "u8 list \<Rightarrow> nat \<Rightarrow> nat \<Rightarrow> bool option" where
  "sei_recovery_cnt mem offset ps =
     (if offset + ps \<le> length mem
      then Some (0 \<le> sint (fst (nal_bs_read_ue (nal_bs_init (take ps (drop offset mem))))))
      else (case nal_bs_read_ue_open (nal_bs_init (drop offset mem)) of
              None \<Rightarrow> None
            | Some v \<Rightarrow> Some (0 \<le> sint v)))"

function sei_recovery_loop :: "u8 list \<Rightarrow> nat \<Rightarrow> nat \<Rightarrow> bool option" where
  "sei_recovery_loop mem e offset =
     (case sei_ff_sum mem offset 0 of
        None \<Rightarrow> None
      | Some (pt, offset1) \<Rightarrow>
          (case sei_ff_sum mem offset1 0 of
             None \<Rightarrow> None
           | Some (ps, offset2) \<Rightarrow>
               if pt = SEI_RECOVERY_POINT then sei_recovery_cnt mem offset2 ps
               else if offset2 + ps < e then
                 (if offset2 + ps < length mem then
                    (if mem ! (offset2 + ps) \<noteq> 0x80
                     then sei_recovery_loop mem e (offset2 + ps) else Some False)
                  else None)
               else Some False))"
  by pat_completeness auto
termination
proof (relation "measure (\<lambda>(mem, e, offset). e - offset)")
  show "wf (measure (\<lambda>(mem, e, offset). e - offset))" by simp
next
  fix mem :: "u8 list" and e offset :: nat and x2 pt offset1 y ps offset2
  assume a: "sei_ff_sum mem offset 0 = Some x2" "(pt, offset1) = x2"
    "sei_ff_sum mem offset1 0 = Some y" "(ps, offset2) = y" "offset2 + ps < e"
  have adv: "sei_ff_sum m i acc = Some (v, j) \<Longrightarrow> i < j" for m i acc v j
  proof (induction m i acc rule: sei_ff_sum.induct)
    case (1 m i acc)
    show ?case
    proof (cases "i < length m \<and> m ! i = 0xFF")
      case True
      with "1.prems" have "sei_ff_sum m (i + 1) (acc + 255) = Some (v, j)"
        by (subst (asm) sei_ff_sum.simps) simp
      with "1.IH" True have "i + 1 < j" by simp
      then show ?thesis by simp
    next
      case False
      with "1.prems" show ?thesis
        by (subst (asm) sei_ff_sum.simps) (auto split: if_splits)
    qed
  qed
  from a adv [of mem offset 0 pt offset1] adv [of mem offset1 0 ps offset2]
  have "offset < offset2 + ps" by auto
  with a(5) show "((mem, e, offset2 + ps), mem, e, offset) \<in> measure (\<lambda>(mem, e, offset). e - offset)"
    by simp
qed

declare sei_recovery_loop.simps [simp del]

definition has_sei_recovery_point :: "u8 list \<Rightarrow> nat \<Rightarrow> bool option" where
  "has_sei_recovery_point mem e = sei_recovery_loop mem e 1"

definition ApplyMasteringDisplayColourVolume :: "conv \<Rightarrow> nat \<times> nat \<times> string \<Rightarrow> conv" where
  "ApplyMasteringDisplayColourVolume st metadata =
     (let h = m_hdrStaticMetadataInfo st in
      if max_lum h \<noteq> fst metadata \<or> min_lum h \<noteq> fst (snd metadata) \<or> \<not> has_mdcv_metadata h
      then st\<lparr>m_hdrStaticMetadataInfo :=
                h\<lparr>has_mdcv_metadata := True, max_lum := fst metadata,
                  min_lum := fst (snd metadata), colour_primaries := snd (snd metadata)\<rparr>\<rparr>
      else st)"

definition ApplyContentLightLevel :: "conv \<Rightarrow> nat \<times> nat \<Rightarrow> conv" where
  "ApplyContentLightLevel st metadata =
     (let h = m_hdrStaticMetadataInfo st in
      if max_cll h \<noteq> fst metadata \<or> max_fall h \<noteq> snd metadata \<or> \<not> has_cll_metadata h
      then st\<lparr>m_hdrStaticMetadataInfo :=
                h\<lparr>has_cll_metadata := True, max_cll := fst metadata, max_fall := snd metadata\<rparr>\<rparr>
      else st)"

text \<open>
  \<^verbatim>\<open>get_dovi_rpu_info\<close> publishes to the sink and, on the first frame, stores the EL
  type of the RPU in the hints.
\<close>

definition get_dovi_rpu_info :: "'m ext \<Rightarrow> conv \<Rightarrow> u8 list \<Rightarrow> conv" where
  "get_dovi_rpu_info x st nal =
     (if m_first_frame st
      then st\<lparr>m_hints := (m_hints st)\<lparr>dovi_el_type := rpu_el_type x nal\<rparr>\<rparr>
      else st)"

text \<open>
  The locals \<^verbatim>\<open>hdr10plus_meta\<close> and \<^verbatim>\<open>convert_hdr10plus_meta\<close> of a conversion are one
  option: the flag is set exactly where the metadata is assigned and is never cleared.
\<close>

definition AddDoViRpuNalu :: "'m ext \<Rightarrow> conv \<Rightarrow> 'm \<Rightarrow> u8 list \<Rightarrow> conv \<times> u8 list" where
  "AddDoViRpuNalu x st meta poutbuf =
     (let nalu = create_rpu_nalu_for_hdr10plus x meta (m_convert_Hdr10Plus_peak_brightness_source st)
                   (m_hdrStaticMetadataInfo st)
      in if nalu \<noteq> [] then
           let st1 = (if m_first_frame st then
                        st\<lparr>m_hints := (m_hints st)\<lparr>hdrType := HDR_TYPE_DOLBYVISION,
                             dovi := (dovi (m_hints st))\<lparr>dv_version_major := 1, dv_version_minor := 0,
                               dv_profile := 8, dv_level := 6, rpu_present_flag := 1,
                               el_present_flag := 0, bl_present_flag := 1,
                               dv_bl_signal_compatibility_id := 1\<rparr>\<rparr>\<rparr>
                      else st);
               st2 = get_dovi_rpu_info x st1 nalu
           in (st2, BitstreamAllocAndCopy poutbuf [] nalu HEVC_NAL_UNSPEC62)
         else (st, poutbuf))"

definition ProcessSeiPrefix ::
  "'m ext \<Rightarrow> conv \<Rightarrow> u8 list \<Rightarrow> u8 list \<Rightarrow> 'm option \<Rightarrow> conv \<times> u8 list \<times> 'm option" where
  "ProcessSeiPrefix x st nal poutbuf meta =
     (let st1 = (case sei_mdcv x nal of Some v \<Rightarrow> ApplyMasteringDisplayColourVolume st v | None \<Rightarrow> st);
          st2 = (case sei_cll x nal of Some v \<Rightarrow> ApplyContentLightLevel st1 v | None \<Rightarrow> st1)
      in case sei_hdr10plus x nal of
           None \<Rightarrow> (st2, BitstreamAllocAndCopy poutbuf [] nal HEVC_NAL_SEI_PREFIX, meta)
         | Some res \<Rightarrow>
             let isDual = (m_intial_hdrType st2 = HDR_TYPE_DOLBYVISION);
                 considerAsHdr10Plus = (\<not> isDual \<or> m_dual_priority_Hdr10Plus st2
                                        \<or> m_prefer_Hdr10Plus_conversion st2);
                 st3 = (if m_first_frame st2 \<and> considerAsHdr10Plus
                        then st2\<lparr>m_hints := (m_hints st2)\<lparr>hdrType := HDR_TYPE_HDR10PLUS\<rparr>\<rparr>
                        else st2);
                 convert = (considerAsHdr10Plus \<and> m_convert_Hdr10Plus st3
                            \<and> \<not> m_dual_priority_Hdr10Plus st3);
                 meta' = (if convert then Some res else meta)
             in if convert \<or> m_removeHdr10Plus st3 then
                  let nalu = sei_remove_hdr10plus x nal
                  in (st3, if nalu \<noteq> [] then BitstreamAllocAndCopy poutbuf [] nalu HEVC_NAL_SEI_PREFIX
                           else poutbuf, meta')
                else (st3, BitstreamAllocAndCopy poutbuf [] nal HEVC_NAL_SEI_PREFIX, meta'))"

text \<open>\<^verbatim>\<open>ProcessDoViRpu\<close>, built with \<^verbatim>\<open>HAVE_LIBDOVI\<close>.\<close>

definition ProcessDoViRpu :: "'m ext \<Rightarrow> conv \<Rightarrow> u8 list \<Rightarrow> u8 list \<Rightarrow> conv \<times> u8 list" where
  "ProcessDoViRpu x st nal poutbuf =
     (let (st1, nal1) =
            (if m_convert_dovi st \<noteq> MODE_NONE then
               (case convert_dovi_rpu_nal x nal (m_convert_dovi st) of
                  Some rpu_data \<Rightarrow>
                    let d = (dovi (m_hints st))\<lparr>el_present_flag := 0\<rparr>;
                        d' = (if m_convert_dovi st = MODE_TO81
                              then d\<lparr>dv_profile := 8, dv_bl_signal_compatibility_id := 1\<rparr> else d)
                    in (st\<lparr>m_hints := (m_hints st)\<lparr>dovi := d'\<rparr>\<rparr>, rpu_data)
                | None \<Rightarrow> (st, nal))
             else (st, nal));
          st2 = get_dovi_rpu_info x st1 nal1
      in (st2, BitstreamAllocAndCopy poutbuf [] nal1 HEVC_NAL_UNSPEC62))"

text \<open>
  The length prefix: \<^verbatim>\<open>nal_size = (nal_size << 8) | buf[i]\<close> over \<^verbatim>\<open>length_size\<close> bytes,
  in a 32-bit signed int.
\<close>

definition be_size :: "u8 list \<Rightarrow> int" where
  "be_size bs = sint (foldl (\<lambda>(acc::u32) b. push_bit 8 acc OR ucast b) 0 bs)"

definition unit_type_of :: "AVCodecID \<Rightarrow> u8 \<Rightarrow> u8" where
  "unit_type_of c b = (if c = AV_CODEC_ID_H264 then b AND 0x1f else drop_bit 1 b AND 0x3f)"

definition nal_sps :: "AVCodecID \<Rightarrow> u8" where
  "nal_sps c = (if c = AV_CODEC_ID_H264 then AVC_NAL_SPS else HEVC_NAL_SPS)"

definition nal_pps :: "AVCodecID \<Rightarrow> u8" where
  "nal_pps c = (if c = AV_CODEC_ID_H264 then AVC_NAL_PPS else HEVC_NAL_PPS)"

definition nal_sei :: "AVCodecID \<Rightarrow> u8" where
  "nal_sei c = (if c = AV_CODEC_ID_H264 then AVC_NAL_SEI else HEVC_NAL_SEI_PREFIX)"

text \<open>
  One pass of the \<^verbatim>\<open>do\<close> loop of \<^verbatim>\<open>BitstreamConvert\<close> after the two length checks,
  in the three steps the source takes: the SPS/PPS flag, the decode-start latch, and
  the output of the NAL. \<open>mem\<close> holds the bytes from the start of the NAL to the end
  of the packet and \<open>nal_size\<close> is the checked length. The result is \<open>None\<close> only
  where \<^verbatim>\<open>has_sei_recovery_point\<close> is.
\<close>

definition note_sps_pps :: "AVCodecID \<Rightarrow> u8 \<Rightarrow> omx_bitstream_ctx \<Rightarrow> omx_bitstream_ctx" where
  "note_sps_pps c unit_type ctx =
     (if first_idr ctx \<noteq> 0 \<and> (unit_type = nal_sps c \<or> unit_type = nal_pps c)
      then ctx\<lparr>idr_sps_pps_seen := 1\<rparr> else ctx)"

definition start_decode_trigger :: "AVCodecID \<Rightarrow> u8 \<Rightarrow> u8 list \<Rightarrow> nat \<Rightarrow> bool option" where
  "start_decode_trigger c unit_type mem nal_size =
     (if unit_type = nal_sps c \<or> IsIDR c unit_type then Some True
      else if unit_type = nal_sei c then has_sei_recovery_point mem nal_size
      else Some False)"

text \<open>The \<^verbatim>\<open>switch (unit_type)\<close> of the loop body.\<close>

definition dispatch_unit ::
  "'m ext \<Rightarrow> conv \<Rightarrow> u8 list \<Rightarrow> u8 \<Rightarrow> u8 list \<Rightarrow> 'm option \<Rightarrow> conv \<times> u8 list \<times> 'm option" where
  "dispatch_unit x st nal unit_type poutbuf meta =
     (if unit_type = HEVC_NAL_SEI_PREFIX then ProcessSeiPrefix x st nal poutbuf meta
      else if unit_type = HEVC_NAL_UNSPEC62 then
        (if \<not> m_removeDovi st \<and> meta = None
         then (let (st', out) = ProcessDoViRpu x st nal poutbuf in (st', out, meta))
         else (st, poutbuf, meta))
      else if unit_type = HEVC_NAL_UNSPEC63 then
        (if \<not> m_removeDovi st \<and> meta = None \<and> m_convert_dovi st = MODE_NONE
         then (st, BitstreamAllocAndCopy poutbuf [] nal unit_type, meta)
         else (st, poutbuf, meta))
      else (st, BitstreamAllocAndCopy poutbuf [] nal unit_type, meta))"

text \<open>
  The prologue is prepended to an IDR NAL while \<^verbatim>\<open>first_idr\<close> is set and no SPS or
  PPS has been seen; otherwise a slice met with \<^verbatim>\<open>first_idr\<close> clear sets both flags
  anew, and the NAL goes through the switch.
\<close>

definition emit_unit ::
  "'m ext \<Rightarrow> conv \<Rightarrow> u8 list \<Rightarrow> u8 \<Rightarrow> u8 list \<Rightarrow> 'm option \<Rightarrow> conv \<times> u8 list \<times> 'm option" where
  "emit_unit x st nal unit_type poutbuf meta =
     (let c = m_codec st; ctx = m_sps_pps_context st
      in if first_idr ctx \<noteq> 0 \<and> IsIDR c unit_type \<and> idr_sps_pps_seen ctx = 0 then
           (st\<lparr>m_sps_pps_context := ctx\<lparr>first_idr := 0\<rparr>\<rparr>,
            BitstreamAllocAndCopy poutbuf (case sps_pps_data ctx of None \<Rightarrow> [] | Some d \<Rightarrow> d)
              nal unit_type,
            meta)
         else
           dispatch_unit x
             (if first_idr ctx = 0 \<and> IsSlice c unit_type
              then st\<lparr>m_sps_pps_context := ctx\<lparr>first_idr := 1, idr_sps_pps_seen := 0\<rparr>\<rparr>
              else st)
             nal unit_type poutbuf meta)"

definition BitstreamConvert_unit ::
  "'m ext \<Rightarrow> conv \<Rightarrow> u8 list \<Rightarrow> nat \<Rightarrow> u8 list \<Rightarrow> 'm option
     \<Rightarrow> (conv \<times> u8 list \<times> 'm option) option" where
  "BitstreamConvert_unit x st mem nal_size poutbuf meta =
     (let c = m_codec st;
          unit_type = unit_type_of c (hd mem);
          st1 = st\<lparr>m_sps_pps_context := note_sps_pps c unit_type (m_sps_pps_context st)\<rparr>
      in case (if m_start_decode st1 then Some False
               else start_decode_trigger c unit_type mem nal_size) of
           None \<Rightarrow> None
         | Some trig \<Rightarrow>
             Some (emit_unit x (if trig then st1\<lparr>m_start_decode := True\<rparr> else st1)
                     (take nal_size mem) unit_type poutbuf meta))"

text \<open>
  The \<^verbatim>\<open>do ... while (cumul_size < buf_size)\<close> loop over the bytes \<open>buf\<close> from the
  current position to \<^verbatim>\<open>buf_end\<close>; the loop goes on while bytes remain. The boolean is
  \<open>False\<close> at \<^verbatim>\<open>fail\<close>, where the output is freed. (The unit type is read before the
  second length check; where that read is past the packet the check fails and the value
  is not used.)
\<close>

function BitstreamConvert_loop ::
  "'m ext \<Rightarrow> conv \<Rightarrow> u8 list \<Rightarrow> u8 list \<Rightarrow> 'm option
     \<Rightarrow> (bool \<times> conv \<times> u8 list \<times> 'm option) option" where
  "BitstreamConvert_loop x st buf poutbuf meta =
     (let l = length_size (m_sps_pps_context st) in
      if l > length buf then Some (False, st, [], meta)
      else
        let nal_size = be_size (take l buf);
            mem = drop l buf
        in if int (length mem) < nal_size \<or> nal_size \<le> 0 then Some (False, st, [], meta)
           else
             (case BitstreamConvert_unit x st mem (nat nal_size) poutbuf meta of
                None \<Rightarrow> None
              | Some (st', out, meta') \<Rightarrow>
                  if drop (nat nal_size) mem \<noteq> []
                  then BitstreamConvert_loop x st' (drop (nat nal_size) mem) out meta'
                  else Some (True, st', out, meta')))"
  by pat_completeness auto
termination
  by (relation "measure (\<lambda>(x, st, buf, poutbuf, meta). length buf)") auto

declare BitstreamConvert_loop.simps [simp del]

definition BitstreamConvert :: "'m ext \<Rightarrow> conv \<Rightarrow> u8 list \<Rightarrow> (bool \<times> conv \<times> u8 list) option" where
  "BitstreamConvert x st pData =
     (case m_codec st of
        AV_CODEC_ID_OTHER \<Rightarrow> Some (False, st, [])
      | _ \<Rightarrow>
        (case BitstreamConvert_loop x st pData [] None of
           None \<Rightarrow> None
         | Some (False, st', out, meta) \<Rightarrow> Some (False, st', [])
         | Some (True, st', out, meta) \<Rightarrow>
             let (st'', out') = (case meta of None \<Rightarrow> (st', out)
                                 | Some m \<Rightarrow> AddDoViRpuNalu x st' m out)
             in Some (True, st''\<lparr>m_first_frame := False\<rparr>, out')))"

text \<open>
  The conversion of a packet in 3-byte NAL sizes: \<open>None\<close> where a size or a payload
  runs past the packet, which the source reads without a check.
\<close>

function convert_3to4 :: "u8 list \<Rightarrow> u8 list \<Rightarrow> u8 list option" where
  "convert_3to4 buf acc =
     (if buf = [] then Some acc
      else if length buf < 3 then None
      else
        let nal_size = unat (BS_RB24 buf)
        in if length buf < 3 + nal_size then None
           else convert_3to4 (drop (3 + nal_size) buf)
                  (acc @ BS_WB32 (BS_RB24 buf) @ take nal_size (drop 3 buf)))"
  by pat_completeness auto
termination
  by (relation "measure (\<lambda>(buf, acc). length buf)") auto

declare convert_3to4.simps [simp del]

text \<open>
  \<^verbatim>\<open>Convert(pData, iSize, pts)\<close>: the packet is \<open>None\<close> for a \<^verbatim>\<open>NULL\<close> pointer. The
  result is \<open>None\<close> where the source reads outside the packet.
\<close>

definition Convert :: "'m ext \<Rightarrow> conv \<Rightarrow> u8 list option \<Rightarrow> (bool \<times> conv) option" where
  "Convert x st pData =
     (let st0 = st\<lparr>m_convertBuffer := None, m_inputSize := 0, m_convertSize := 0,
                   m_inputBuffer := None\<rparr>
      in case pData of
           None \<Rightarrow> Some (False, st0)
         | Some pkt \<Rightarrow>
             if m_codec st0 = AV_CODEC_ID_H264 \<or> m_codec st0 = AV_CODEC_ID_HEVC then
               if m_to_annexb st0 then
                 if m_convert_bitstream st0 then
                   (case BitstreamConvert x st0 pkt of
                      None \<Rightarrow> None
                    | Some (r, st1, bytestream_buff) \<Rightarrow>
                        if bytestream_buff \<noteq> []
                        then Some (True, st1\<lparr>m_convertSize := length bytestream_buff,
                                             m_convertBuffer := Some bytestream_buff\<rparr>)
                        else Some (False, st1\<lparr>m_convertSize := 0, m_convertBuffer := None\<rparr>))
                 else Some (True, st0\<lparr>m_inputSize := length pkt, m_inputBuffer := Some pkt\<rparr>)
               else
                 let st1 = st0\<lparr>m_inputSize := length pkt, m_inputBuffer := Some pkt\<rparr>
                 in if m_convert_bytestream st1 then
                      (if \<not> avio_open_dyn_buf_ok x then Some (False, st1)
                       else Some (True, st1\<lparr>m_convertSize := length (avc_parse_nal_units x pkt),
                                            m_convertBuffer := Some (avc_parse_nal_units x pkt)\<rparr>))
                    else if m_convert_3byteTo4byteNALSize st1 then
                      (if \<not> avio_open_dyn_buf_ok x then Some (False, st1)
                       else (case convert_3to4 pkt [] of
                               None \<Rightarrow> None
                             | Some out \<Rightarrow> Some (True, st1\<lparr>m_convertSize := length out,
                                                           m_convertBuffer := Some out\<rparr>)))
                    else Some (True, st1)
             else Some (False, st0))"

definition GetConvertBuffer :: "conv \<Rightarrow> u8 list option" where
  "GetConvertBuffer st =
     (if (m_convert_bitstream st \<or> m_convert_bytestream st \<or> m_convert_3byteTo4byteNALSize st
          \<or> m_combine st) \<and> m_convertBuffer st \<noteq> None
      then m_convertBuffer st else m_inputBuffer st)"

definition GetConvertSize :: "conv \<Rightarrow> nat" where
  "GetConvertSize st =
     (if (m_convert_bitstream st \<or> m_convert_bytestream st \<or> m_convert_3byteTo4byteNALSize st
          \<or> m_combine st) \<and> m_convertBuffer st \<noteq> None
      then m_convertSize st else m_inputSize st)"







text \<open>The members that a conversion leaves as they are.\<close>

definition kept :: "conv \<Rightarrow> conv \<Rightarrow> bool" where
  "kept st st' \<longleftrightarrow>
     m_codec st' = m_codec st \<and> m_to_annexb st' = m_to_annexb st \<and>
     m_convert_bitstream st' = m_convert_bitstream st \<and>
     length_size (m_sps_pps_context st') = length_size (m_sps_pps_context st) \<and>
     sps_pps_data (m_sps_pps_context st') = sps_pps_data (m_sps_pps_context st) \<and>
     size (m_sps_pps_context st') = size (m_sps_pps_context st)"





subsection \<open>The SEI scan message by message, and a packet NAL by NAL\<close>

text \<open>
  The definitions of this subsection are not functions of the source. They describe,
  over lists, what the theorems compare the source with: the SEI messages that
  \<^verbatim>\<open>has_sei_recovery_point\<close> visits, and the effect of a packet as the effect of its NALs in
  turn.
\<close>















subsection \<open>Dual-track conversion\<close>

text \<open>
  The base-layer loop of \<^verbatim>\<open>Convert(pData_bl, iSize_bl, pData_el, iSize_el, pts)\<close> over
  the bytes \<open>buf\<close> from the current position to \<^verbatim>\<open>end\<close>. \<open>eos\<close> is
  \<^verbatim>\<open>(buf_eos, size_eos)\<close>, \<open>None\<close> while \<^verbatim>\<open>buf_eos\<close> is \<^verbatim>\<open>NULL\<close>. The loop returns
  the bytes it leaves unread as well, since in one of the two cases the
  enhancement-layer loop goes on from there.
\<close>

definition dual_nal_size :: "u8 list \<Rightarrow> nat" where
  "dual_nal_size buf = min (unat (BS_RB32 buf)) (length buf - 4)"

definition dual_nal_type :: "u8 list \<Rightarrow> u8" where
  "dual_nal_type buf = drop_bit 1 (buf ! 4) AND 0x3f"

function dual_bl_loop ::
  "'m ext \<Rightarrow> conv \<Rightarrow> u8 list \<Rightarrow> u8 list \<Rightarrow> 'm option \<Rightarrow> u8 list option
     \<Rightarrow> conv \<times> u8 list \<times> 'm option \<times> u8 list option \<times> u8 list" where
  "dual_bl_loop x st buf out meta eos =
     (if length buf > 4 then
        let sz = dual_nal_size buf;
            nal_type = dual_nal_type buf;
            nal = take sz (drop 4 buf);
            (st1, out1, meta1, eos1) =
              (if nal_type = HEVC_NAL_SEI_PREFIX then
                 (let (s, out, m) = ProcessSeiPrefix x st nal out meta in (s, out, m, eos))
               else if nal_type = AVC_NAL_END_SEQUENCE then (st, out, meta, Some nal)
               else (st, BitstreamAllocAndCopy32 out nal nal_type, meta, eos));
            st2 = st1\<lparr>m_hints := (m_hints st1)\<lparr>dovi := (dovi (m_hints st1))\<lparr>bl_present_flag := 1\<rparr>\<rparr>\<rparr>
        in dual_bl_loop x st2 (drop (4 + sz) buf) out1 meta1 eos1
      else (st, out, meta, eos, buf))"
  by pat_completeness auto
termination
  by (relation "measure (\<lambda>(x, st, buf, out, meta, eos). length buf)") auto

declare dual_bl_loop.simps [simp del]

function dual_el_loop :: "'m ext \<Rightarrow> conv \<Rightarrow> u8 list \<Rightarrow> u8 list \<Rightarrow> bool \<Rightarrow> conv \<times> u8 list" where
  "dual_el_loop x st buf out convert_hdr10plus_meta =
     (if length buf > 4 then
        let sz = dual_nal_size buf;
            nal_type = dual_nal_type buf;
            nal = take sz (drop 4 buf);
            (st1, out1) =
              (if nal_type = HEVC_NAL_UNSPEC62 then
                 (if \<not> m_removeDovi st \<and> \<not> convert_hdr10plus_meta
                  then ProcessDoViRpu x st nal out else (st, out))
               else
                 (if \<not> m_removeDovi st \<and> \<not> convert_hdr10plus_meta \<and> m_convert_dovi st = MODE_NONE
                  then (st, BitstreamAllocAndCopy32 out nal HEVC_NAL_UNSPEC63) else (st, out)));
            st2 = st1\<lparr>m_hints := (m_hints st1)\<lparr>dovi := (dovi (m_hints st1))\<lparr>el_present_flag := 1\<rparr>\<rparr>\<rparr>
        in dual_el_loop x st2 (drop (4 + sz) buf) out1 convert_hdr10plus_meta
      else (st, out))"
  by pat_completeness auto
termination
  by (relation "measure (\<lambda>(x, st, buf, out, c). length buf)") auto

declare dual_el_loop.simps [simp del]

text \<open>
  The two packets are \<open>None\<close> for \<^verbatim>\<open>NULL\<close> pointers. Without bitstream conversion both
  packets are rewritten by \<^verbatim>\<open>avc_parse_nal_units\<close> into one buffer, the base-layer loop
  runs over its first part, and the enhancement-layer loop starts where the first
  loop stopped.
\<close>

definition Convert_dual ::
  "'m ext \<Rightarrow> conv \<Rightarrow> u8 list option \<Rightarrow> u8 list option \<Rightarrow> bool \<times> conv" where
  "Convert_dual x st pData_bl pData_el =
     (let st0 = st\<lparr>m_convertBuffer := None, m_inputSize := 0, m_convertSize := 0,
                   m_inputBuffer := None\<rparr>
      in case (pData_bl, pData_el) of
           (Some bl, Some el) \<Rightarrow>
             if \<not> m_convert_bitstream st0 \<and> \<not> avio_open_dyn_buf_ok x then (False, st0)
             else
               let bl_buf = (if m_convert_bitstream st0 then bl else avc_parse_nal_units x bl);
                   el_buf = (if m_convert_bitstream st0 then el else avc_parse_nal_units x el);
                   (st1, out1, meta, eos, rest) = dual_bl_loop x st0 bl_buf [] None None;
                   el_region = (if m_convert_bitstream st0 then el_buf
                                else take (length el_buf) (rest @ el_buf));
                   (st2, out2) = dual_el_loop x st1 el_region out1 (meta \<noteq> None);
                   (st3, out3) = (case meta of None \<Rightarrow> (st2, out2)
                                  | Some m \<Rightarrow> AddDoViRpuNalu x st2 m out2);
                   out4 = (case eos of None \<Rightarrow> out3
                           | Some nal \<Rightarrow> BitstreamAllocAndCopy32 out3 nal AVC_NAL_END_SEQUENCE)
               in (True, st3\<lparr>m_convertBuffer := (if out4 = [] then None else Some out4),
                              m_convertSize := length out4, m_combine := True,
                              m_first_frame := False\<rparr>)
         | _ \<Rightarrow> (True, st0\<lparr>m_first_frame := False\<rparr>))"

subsection \<open>Open and the SPS/PPS prologue\<close>

text \<open>
  \<^verbatim>\<open>BitstreamConvertInitAVC\<close> and \<^verbatim>\<open>BitstreamConvertInitHEVC\<close> walk the configuration
  record \<open>ex\<close> with the index \<open>p\<close>. The outer \<open>option\<close> is \<open>None\<close> where the source
  reads a byte outside the record (it checks a unit against the record's end only
  after reading its size); the inner one is \<open>None\<close> at \<^verbatim>\<open>return false\<close>. The flags
  \<^verbatim>\<open>sps_seen\<close> and \<^verbatim>\<open>pps_seen\<close> only feed log messages and are left out.
  \<^verbatim>\<open>av_realloc\<close> is taken to succeed.
\<close>

definition INT_MAX :: nat where "INT_MAX = 2 ^ 31 - 1"

definition rb16 :: "u8 list \<Rightarrow> nat \<Rightarrow> nat" where
  "rb16 ex p = unat (ex ! p) * 256 + unat (ex ! (p + 1))"

text \<open>
  The code at the label \<^verbatim>\<open>pps\<close>, inside the loop of \<^verbatim>\<open>BitstreamConvertInitAVC\<close>:
  from \<open>(p, unit_nb, sps_done, mvc_done)\<close> and \<^verbatim>\<open>total_size\<close> to the new four.
\<close>

definition avc_pps_step ::
  "u8 list \<Rightarrow> nat \<Rightarrow> u8 \<Rightarrow> nat \<Rightarrow> nat \<Rightarrow> nat \<Rightarrow> (nat \<times> u8 \<times> nat \<times> nat) option" where
  "avc_pps_step ex p unit_nb sps_done mvc_done total_size =
     (case (if unit_nb = 0 then
              (if sps_done = 0 then
                 (if p < length ex then Some (p + 1, ex ! p, sps_done + 1) else None)
               else Some (p, unit_nb, sps_done + 1))
            else Some (p, unit_nb, sps_done)) of
        None \<Rightarrow> None
      | Some (p1, unit_nb1, sps_done1) \<Rightarrow>
          if unit_nb1 = 0 then
            (if mvc_done = 0 then
               (if (int (length ex) - int total_size) mod 2 ^ 32 > 14 then
                  (if p1 + 12 \<le> length ex then
                     (if take 4 (drop (p1 + 8) ex) = [0x6d, 0x76, 0x63, 0x43] then
                        (if p1 + 17 < length ex
                         then Some (p1 + 18, ex ! (p1 + 17) AND 0x1f, 0, mvc_done + 1)
                         else None)
                      else Some (p1, unit_nb1, sps_done1, mvc_done + 1))
                   else None)
                else Some (p1, unit_nb1, sps_done1, mvc_done + 1))
             else Some (p1, unit_nb1, sps_done1, mvc_done + 1))
          else Some (p1, unit_nb1, sps_done1, mvc_done))"

function avc_units ::
  "u8 list \<Rightarrow> nat \<Rightarrow> nat \<Rightarrow> u8 \<Rightarrow> nat \<Rightarrow> nat \<Rightarrow> nat \<Rightarrow> u8 list
     \<Rightarrow> (u8 list \<times> nat) option option" where
  "avc_units ex pad p unit_nb sps_done mvc_done total_size out =
     (if unit_nb = 0 then Some (Some (out, total_size))
      else if \<not> p + 1 < length ex then None
      else
        let unit_size = rb16 ex p;
            total_size1 = total_size + unit_size + 4
        in if total_size1 > INT_MAX - pad \<or> p + 2 + unit_size > length ex then Some None
           else
             (case avc_pps_step ex (p + 2 + unit_size) (unit_nb - 1) sps_done mvc_done total_size1 of
                None \<Rightarrow> None
              | Some (p', unit_nb', sps_done', mvc_done') \<Rightarrow>
                  avc_units ex pad p' unit_nb' sps_done' mvc_done' total_size1
                    (out @ [0, 0, 0, 1] @ take unit_size (drop (p + 2) ex))))"
  by pat_completeness auto
termination
proof (relation "measure (\<lambda>(ex, pad, p, unit_nb, sps_done, mvc_done, total_size, out). length ex - p)")
  show "wf (measure (\<lambda>(ex, pad, p, unit_nb, sps_done, mvc_done, total_size, out). length ex - p))"
    by simp
next
  fix ex :: "u8 list" and pad p :: nat and unit_nb :: u8 and sps_done mvc_done total_size :: nat
    and out :: "u8 list" and x xa x2 xb y xc ya xd z
  assume a: "\<not> \<not> p + 1 < length ex" "x = rb16 ex p"
    "avc_pps_step ex (p + 2 + x) (unit_nb - 1) sps_done mvc_done xa = Some x2"
    "(xb, y) = x2"
  have "xb \<ge> p + 2 + x"
    using a(3,4) unfolding avc_pps_step_def
    by (auto split: if_splits option.splits prod.splits)
  with a(1) show "((ex, pad, xb, xc, xd, z, xa, out @ [0, 0, 0, 1] @ take x (drop (p + 2) ex)),
      ex, pad, p, unit_nb, sps_done, mvc_done, total_size, out)
    \<in> measure (\<lambda>(ex, pad, p, unit_nb, sps_done, mvc_done, total_size, out). length ex - p)"
    by simp
qed

declare avc_units.simps [simp del]

text \<open>
  \<^verbatim>\<open>BitstreamConvertInitAVC\<close> on a record that is not \<^verbatim>\<open>NULL\<close>. A count of zero SPS
  enters the loop body at \<^verbatim>\<open>pps\<close>.
\<close>

definition BitstreamConvertInitAVC :: "'m ext \<Rightarrow> conv \<Rightarrow> u8 list \<Rightarrow> (bool \<times> conv) option" where
  "BitstreamConvertInitAVC x st ex =
     (let st1 = st\<lparr>m_sps_pps_size := 0,
                   m_sps_pps_context := (m_sps_pps_context st)\<lparr>sps_pps_data := None\<rparr>\<rparr>
      in if length ex < 6 then Some (False, st1)
         else
           let st2 = st1\<lparr>m_sps_pps_context :=
                         (m_sps_pps_context st1)\<lparr>length_size := unat (ex ! 4 AND 0x3) + 1\<rparr>\<rparr>;
               unit_nb = ex ! 5 AND 0x1f;
               r = (if unit_nb = 0 then
                      (case avc_pps_step ex 6 unit_nb 0 0 0 of
                         None \<Rightarrow> None
                       | Some (p', unit_nb', sps_done', mvc_done') \<Rightarrow>
                           avc_units ex (padding_size x) p' unit_nb' sps_done' mvc_done' 0 [])
                    else avc_units ex (padding_size x) 6 unit_nb 0 0 0 [])
           in case r of
                None \<Rightarrow> None
              | Some None \<Rightarrow> Some (False, st2)
              | Some (Some (out, total_size)) \<Rightarrow>
                  Some (True, st2\<lparr>m_sps_pps_context :=
                          (m_sps_pps_context st2)\<lparr>sps_pps_data := (if out = [] then None else Some out),
                             size := total_size, first_idr := 1, idr_sps_pps_seen := 0\<rparr>\<rparr>))"

text \<open>The inner loop of \<^verbatim>\<open>BitstreamConvertInitHEVC\<close>: the units of one array.\<close>

fun hevc_units ::
  "u8 list \<Rightarrow> nat \<Rightarrow> u8 \<Rightarrow> nat \<Rightarrow> nat \<Rightarrow> nat \<Rightarrow> u8 list \<Rightarrow> (nat \<times> nat \<times> u8 list) option option" where
  "hevc_units ex pad nal_type 0 p total_size out = Some (Some (p, total_size, out))"
| "hevc_units ex pad nal_type (Suc unit_nb) p total_size out =
     (if \<not> p + 1 < length ex then None
      else
        let unit_size = rb16 ex p
        in if nal_type \<noteq> HEVC_NAL_SPS \<and> nal_type \<noteq> HEVC_NAL_PPS \<and> nal_type \<noteq> HEVC_NAL_VPS
           then hevc_units ex pad nal_type unit_nb (p + 2 + unit_size) total_size out
           else if total_size + unit_size + 4 > INT_MAX - pad \<or> p + 2 + unit_size > length ex
           then Some None
           else hevc_units ex pad nal_type unit_nb (p + 2 + unit_size) (total_size + unit_size + 4)
                  (out @ [0, 0, 0, 1] @ take unit_size (drop (p + 2) ex)))"

fun hevc_arrays ::
  "u8 list \<Rightarrow> nat \<Rightarrow> nat \<Rightarrow> nat \<Rightarrow> nat \<Rightarrow> u8 list \<Rightarrow> (nat \<times> u8 list) option option" where
  "hevc_arrays ex pad 0 p total_size out = Some (Some (total_size, out))"
| "hevc_arrays ex pad (Suc array_nb) p total_size out =
     (if \<not> p + 2 < length ex then None
      else
        (case hevc_units ex pad (ex ! p AND 0x3f) (rb16 ex (p + 1)) (p + 3) total_size out of
           None \<Rightarrow> None
         | Some None \<Rightarrow> Some None
         | Some (Some (p', total_size', out')) \<Rightarrow> hevc_arrays ex pad array_nb p' total_size' out'))"

definition BitstreamConvertInitHEVC :: "'m ext \<Rightarrow> conv \<Rightarrow> u8 list \<Rightarrow> (bool \<times> conv) option" where
  "BitstreamConvertInitHEVC x st ex =
     (let st1 = st\<lparr>m_sps_pps_size := 0,
                   m_sps_pps_context := (m_sps_pps_context st)\<lparr>sps_pps_data := None\<rparr>\<rparr>
      in if length ex < 23 then Some (False, st1)
         else
           let st2 = st1\<lparr>m_sps_pps_context :=
                         (m_sps_pps_context st1)\<lparr>length_size := unat (ex ! 21 AND 0x3) + 1\<rparr>\<rparr>
           in case hevc_arrays ex (padding_size x) (unat (ex ! 22)) 23 0 [] of
                None \<Rightarrow> None
              | Some None \<Rightarrow> Some (False, st2)
              | Some (Some (total_size, out)) \<Rightarrow>
                  Some (True, st2\<lparr>m_sps_pps_context :=
                          (m_sps_pps_context st2)\<lparr>sps_pps_data := (if out = [] then None else Some out),
                             size := total_size, first_idr := 1, idr_sps_pps_seen := 0\<rparr>\<rparr>))"

definition annexb_start :: "u8 list \<Rightarrow> bool" where
  "annexb_start ex \<longleftrightarrow>
     (ex ! 0 = 0 \<and> ex ! 1 = 0 \<and> ex ! 2 = 0 \<and> ex ! 3 = 1) \<or> (ex ! 0 = 0 \<and> ex ! 1 = 0 \<and> ex ! 2 = 1)"

text \<open>
  \<^verbatim>\<open>Open(to_annexb)\<close>. The result is \<open>None\<close> where a record parser reads outside the
  record or \<^verbatim>\<open>isom_write_avcc\<close> stops at its assertion. The patch of byte 4 for 3-byte
  NAL sizes is written through the pointer into the hints' own record.
\<close>

definition Open :: "'m ext \<Rightarrow> conv \<Rightarrow> bool \<Rightarrow> (bool \<times> conv) option" where
  "Open x st to_annexb =
     (let st0 = st\<lparr>m_to_annexb := to_annexb, m_codec := codec (m_hints st),
                   m_intial_hdrType := hdrType (m_hints st)\<rparr>;
          in_extradata = extradata (m_hints st0);
          in_extrasize = (case in_extradata of None \<Rightarrow> 0 | Some ex \<Rightarrow> length ex)
      in case m_codec st0 of
           AV_CODEC_ID_H264 \<Rightarrow>
             (case in_extradata of
                None \<Rightarrow> Some (False, st0)
              | Some ex \<Rightarrow>
                  if in_extrasize < 7 then Some (False, st0)
                  else if m_to_annexb st0 then
                    (if ex ! 0 = 1 then
                       (case BitstreamConvertInitAVC x (st0\<lparr>m_extraData := Some ex\<rparr>) ex of
                          None \<Rightarrow> None
                        | Some (r, st1) \<Rightarrow> Some (True, st1\<lparr>m_convert_bitstream := r\<rparr>))
                     else Some (False, st0))
                  else if ex ! 0 \<noteq> 1 then
                    (if annexb_start ex then
                       (if \<not> avio_open_dyn_buf_ok x then Some (False, st0)
                        else (case isom_write_avcc x ex of
                                None \<Rightarrow> None
                              | Some avcc \<Rightarrow>
                                  Some (True, st0\<lparr>m_convert_bytestream := True,
                                                  m_extraData := Some avcc\<rparr>)))
                     else Some (False, st0))
                  else if ex ! 4 = 0xFE then
                    Some (True, st0\<lparr>m_hints := (m_hints st0)\<lparr>extradata := Some (ex[4 := 0xFF])\<rparr>,
                                    m_convert_3byteTo4byteNALSize := True,
                                    m_extraData := Some (ex[4 := 0xFF])\<rparr>)
                  else Some (True, st0\<lparr>m_extraData := Some ex\<rparr>))
         | AV_CODEC_ID_HEVC \<Rightarrow>
             (case in_extradata of
                None \<Rightarrow> Some (False, st0)
              | Some ex \<Rightarrow>
                  if in_extrasize < 23 then Some (False, st0)
                  else if m_to_annexb st0 then
                    (if ex ! 0 \<noteq> 0 \<or> ex ! 1 \<noteq> 0 \<or> ex ! 2 > 1 then
                       (case BitstreamConvertInitHEVC x (st0\<lparr>m_extraData := Some ex\<rparr>) ex of
                          None \<Rightarrow> None
                        | Some (r, st1) \<Rightarrow> Some (True, st1\<lparr>m_convert_bitstream := r\<rparr>))
                     else Some (False, st0))
                  else if ex ! 0 \<noteq> 1 then Some (False, st0)
                  else if ex ! 4 AND 0x3 = 2 then
                    Some (True, st0\<lparr>m_hints := (m_hints st0)\<lparr>extradata := Some (ex[4 := ex ! 4 OR 0x03])\<rparr>,
                                    m_convert_3byteTo4byteNALSize := True,
                                    m_extraData := Some (ex[4 := ex ! 4 OR 0x03])\<rparr>)
                  else Some (True, st0\<lparr>m_extraData := Some ex\<rparr>))
         | AV_CODEC_ID_OTHER \<Rightarrow> Some (False, st0))"

text \<open>The state the constructor leaves, over given hints.\<close>

definition new_conv :: "stream_hints \<Rightarrow> conv" where
  "new_conv h =
     \<lparr>m_hints = h, m_convertBuffer = None, m_convertSize = 0, m_inputBuffer = None,
      m_inputSize = 0, m_sps_pps_size = 0,
      m_sps_pps_context = \<lparr>length_size = 0, first_idr = 0, idr_sps_pps_seen = 0,
                            sps_pps_data = None, size = 0\<rparr>,
      m_convert_bitstream = False, m_to_annexb = False, m_combine = False,
      m_extraData = None, m_convert_3byteTo4byteNALSize = False, m_convert_bytestream = False,
      m_codec = codec h, m_intial_hdrType = hdrType h, m_start_decode = True,
      m_convert_dovi = MODE_NONE, m_removeDovi = False, m_removeHdr10Plus = False,
      m_convert_Hdr10Plus = False, m_prefer_Hdr10Plus_conversion = False,
      m_dual_priority_Hdr10Plus = False, m_convert_Hdr10Plus_peak_brightness_source = 0,
      m_first_frame = True,
      m_hdrStaticMetadataInfo = \<lparr>has_mdcv_metadata = False, max_lum = 0, min_lum = 0,
                                 colour_primaries = [], has_cll_metadata = False,
                                 max_cll = 0, max_fall = 0\<rparr>\<rparr>"

subsection \<open>Concrete collaborators and streams\<close>

text \<open>
  Collaborators that find no metadata and convert nothing, and hints over a given
  codec and configuration record, for evaluating the converter on concrete packets.
\<close>

definition ext0 :: "unit ext" where
  "ext0 = \<lparr>sei_mdcv = (\<lambda>_. None), sei_cll = (\<lambda>_. None), sei_hdr10plus = (\<lambda>_. None),
            sei_remove_hdr10plus = (\<lambda>n. n), create_rpu_nalu_for_hdr10plus = (\<lambda>_ _ _. []),
            convert_dovi_rpu_nal = (\<lambda>_ _. None), rpu_el_type = (\<lambda>_. TYPE_NONE),
            padding_size = 64, avio_open_dyn_buf_ok = True,
            avc_parse_nal_units = (\<lambda>b. b), isom_write_avcc = (\<lambda>b. Some b)\<rparr>"

definition hints0 :: "AVCodecID \<Rightarrow> u8 list option \<Rightarrow> stream_hints" where
  "hints0 c ex =
     \<lparr>codec = c, extradata = ex, hdrType = HDR_TYPE_NONE,
      dovi = \<lparr>dv_version_major = 0, dv_version_minor = 0, dv_profile = 0, dv_level = 0,
              rpu_present_flag = 0, el_present_flag = 0, bl_present_flag = 0,
              dv_bl_signal_compatibility_id = 0\<rparr>,
      dovi_el_type = TYPE_NONE\<rparr>"

text \<open>An avcC record with one SPS of four bytes and one PPS of two, NAL sizes in 4 bytes.\<close>

definition avcc0 :: "u8 list" where
  "avcc0 = [0x01, 0x64, 0x00, 0x28, 0xFF, 0xE1, 0x00, 0x04, 0x67, 0x64, 0x00, 0x28,
            0x01, 0x00, 0x02, 0x68, 0xEE]"

text \<open>An hvcC-sized record of 23 bytes with no arrays, whose first byte is given.\<close>

definition hvcc0 :: "u8 \<Rightarrow> u8 list" where
  "hvcc0 v = v # replicate 20 0x01 @ [0xFF, 0x00]"

text \<open>The state that \<^verbatim>\<open>Open\<close> leaves on this record in the \<^verbatim>\<open>to_annexb\<close> direction.\<close>

definition opened0 :: conv where
  "opened0 = (new_conv (hints0 AV_CODEC_ID_H264 (Some avcc0)))
     \<lparr>m_sps_pps_context := \<lparr>length_size = 4, first_idr = 1, idr_sps_pps_seen = 0,
          sps_pps_data = Some [0, 0, 0, 1, 0x67, 0x64, 0x00, 0x28, 0, 0, 0, 1, 0x68, 0xEE],
          size = 14\<rparr>,
       m_convert_bitstream := True, m_to_annexb := True, m_extraData := Some avcc0\<rparr>"

text \<open>A packet of one IDR slice NAL of two bytes behind a 4-byte length.\<close>

definition idr0 :: "u8 list" where
  "idr0 = [0, 0, 0, 2, 0x65, 0x88]"

text \<open>
  A run of single-track \<^verbatim>\<open>Convert\<close> calls on one converter, with the result of each
  call and what \<^verbatim>\<open>GetConvertBuffer\<close> gives after it.
\<close>

fun Convert_calls :: "'m ext \<Rightarrow> conv \<Rightarrow> u8 list list \<Rightarrow> (bool \<times> u8 list option) list option" where
  "Convert_calls x st [] = Some []"
| "Convert_calls x st (p # ps) =
     (case Convert x st (Some p) of
        None \<Rightarrow> None
      | Some (r, st') \<Rightarrow>
          (case Convert_calls x st' ps of
             None \<Rightarrow> None
           | Some rs \<Rightarrow> Some ((r, GetConvertBuffer st') # rs)))"








section \<open>Verification\<close>

lemmas nal_type_defs =
  AVC_NAL_SLICE_def AVC_NAL_IDR_SLICE_def AVC_NAL_SEI_def AVC_NAL_SPS_def AVC_NAL_PPS_def
  AVC_NAL_END_SEQUENCE_def HEVC_NAL_TRAIL_N_def HEVC_NAL_TRAIL_R_def HEVC_NAL_TSA_N_def
  HEVC_NAL_TSA_R_def HEVC_NAL_STSA_N_def HEVC_NAL_STSA_R_def HEVC_NAL_RADL_N_def
  HEVC_NAL_RADL_R_def HEVC_NAL_RASL_N_def HEVC_NAL_RASL_R_def HEVC_NAL_BLA_W_LP_def
  HEVC_NAL_BLA_W_RADL_def HEVC_NAL_BLA_N_LP_def HEVC_NAL_IDR_W_RADL_def HEVC_NAL_IDR_N_LP_def
  HEVC_NAL_CRA_NUT_def HEVC_NAL_VPS_def HEVC_NAL_SPS_def HEVC_NAL_PPS_def HEVC_NAL_EOS_NUT_def
  HEVC_NAL_SEI_PREFIX_def HEVC_NAL_UNSPEC62_def HEVC_NAL_UNSPEC63_def

lemma wbits_length [simp]: "length (wbits h w) = h"
  by (simp add: wbits_def)

lemma wbits_nth: "j < h \<Longrightarrow> wbits h w ! j = bit w (h - 1 - j)"
  by (simp add: wbits_def rev_nth)

lemma wbits_0 [simp]: "wbits 0 w = []"
  by (simp add: wbits_def)

lemma wbits_push:
  fixes c :: u64 and b :: u8
  assumes "h + 8 \<le> 64"
  shows "wbits (h + 8) (push_bit 8 c OR ucast b) = wbits h c @ wbits 8 b"
proof (rule nth_equalityI)
  show "length (wbits (h + 8) (push_bit 8 c OR ucast b)) = length (wbits h c @ wbits 8 b)"
    by simp
next
  fix j assume "j < length (wbits (h + 8) (push_bit 8 c OR ucast b))"
  then have j: "j < h + 8" by simp
  show "wbits (h + 8) (push_bit 8 c OR ucast b) ! j = (wbits h c @ wbits 8 b) ! j"
  proof (cases "j < h")
    case True
    then have "h + 8 - 1 - j = (h - 1 - j) + 8" by simp
    with True assms j show ?thesis
      by (auto simp: wbits_nth nth_append bit_simps dest: bit_imp_le_length)
  next
    case False
    with j have "h + 8 - 1 - j < 8" "h + 8 - 1 - j = 8 - 1 - (j - h)" by auto
    with False assms j show ?thesis
      by (auto simp: wbits_nth nth_append bit_simps dest: bit_imp_le_length)
  qed
qed

lemma wbits_take: "n \<le> h \<Longrightarrow> take n (wbits h w) = wbits n (drop_bit (h - n) w)"
  by (rule nth_equalityI) (auto simp: wbits_nth bit_simps)

lemma wbits_drop: "drop n (wbits h w) = wbits (h - n) w"
  by (rule nth_equalityI) (auto simp: wbits_nth)

lemma nal_bs_fill_keep:
  assumes "head bs < n" "data bs = a # d" "\<not> (a = 0x03 \<and> cache bs AND 0xffff = 0)"
  shows "nal_bs_fill bs n = nal_bs_fill (bs\<lparr>data := d, cache := push_bit 8 (cache bs) OR ucast a, head := head bs + 8\<rparr>) n"
  apply (subst nal_bs_fill.simps)
  using assms apply (simp only: if_True list.case if_False)
  done

lemma nal_bs_fill_skip:
  assumes "head bs < n" "data bs = a # b # d'" "a = 0x03 \<and> cache bs AND 0xffff = 0"
  shows "nal_bs_fill bs n = nal_bs_fill (bs\<lparr>data := d', cache := push_bit 8 (cache bs) OR ucast b, head := head bs + 8\<rparr>) n"
  apply (subst nal_bs_fill.simps)
  using assms apply (simp only: if_True list.case if_False simp_thms)
  done

lemma nal_bs_fill_skip_end:
  assumes "head bs < n" "data bs = [a]" "a = 0x03 \<and> cache bs AND 0xffff = 0"
  shows "nal_bs_fill bs n = (bs\<lparr>data := []\<rparr>, head bs)"
  apply (subst nal_bs_fill.simps)
  using assms apply (simp only: if_True list.case if_False simp_thms)
  done

lemma nal_bs_fill_end:
  assumes "head bs < n" "data bs = []"
  shows "nal_bs_fill bs n = (bs, head bs)"
  apply (subst nal_bs_fill.simps)
  using assms apply (simp only: if_True list.case if_False simp_thms)
  done

lemma nal_bs_fill_done:
  assumes "\<not> head bs < n"
  shows "nal_bs_fill bs n = (bs, n)"
  apply (subst nal_bs_fill.simps)
  using assms apply (simp only: if_True list.case if_False simp_thms)
  done

lemma bits_of_load:
  assumes "head bs + 8 \<le> 64" "obs (cache bs) (data bs) = Some b # obs (push_bit 8 (cache bs) OR ucast b) d'"
  shows "bits_of (bs\<lparr>data := d', cache := push_bit 8 (cache bs) OR ucast b, head := head bs + 8\<rparr>) = bits_of bs"
  using assms by (simp add: bits_of_def wbits_push)

lemma nal_bs_fill_bits:
  "n \<le> 32 \<Longrightarrow> fill_ok bs n (nal_bs_fill bs n)"
proof (induction bs n rule: nal_bs_fill.induct)
  case (1 bs n)
  show ?case
  proof (cases "head bs < n")
    case False
    then show ?thesis by (simp add: nal_bs_fill_done fill_ok_def)
  next
    case True
    with "1.prems" have h: "head bs + 8 \<le> 64" by simp
    show ?thesis
    proof (cases "data bs")
      case Nil
      with True show ?thesis by (simp add: nal_bs_fill_end fill_ok_def)
    next
      case (Cons a d)
      show ?thesis
      proof (cases "a = 0x03 \<and> cache bs AND 0xffff = 0")
        case skip: True
        show ?thesis
        proof (cases d)
          case Nil
          with True Cons skip show ?thesis
            by (simp add: nal_bs_fill_skip_end fill_ok_def bits_of_def)
        next
          case (Cons b d')
          let ?bs = "bs\<lparr>data := d', cache := push_bit 8 (cache bs) OR ucast b, head := head bs + 8\<rparr>"
          have eq: "nal_bs_fill bs n = nal_bs_fill ?bs n"
            using True \<open>data bs = a # d\<close> skip Cons by (intro nal_bs_fill_skip) simp_all
          have b: "bits_of ?bs = bits_of bs"
            using h \<open>data bs = a # d\<close> skip Cons by (intro bits_of_load) simp_all
          have "fill_ok ?bs n (nal_bs_fill ?bs n)"
            by (rule "1.IH"(1) [OF True \<open>data bs = a # d\<close> skip Cons "1.prems"])
          then show ?thesis unfolding eq fill_ok_def b .
        qed
      next
        case noskip: False
        let ?bs = "bs\<lparr>data := d, cache := push_bit 8 (cache bs) OR ucast a, head := head bs + 8\<rparr>"
        have eq: "nal_bs_fill bs n = nal_bs_fill ?bs n"
          using True Cons noskip by (intro nal_bs_fill_keep) simp_all
        have b: "bits_of ?bs = bits_of bs"
          using h Cons noskip by (intro bits_of_load) auto
        have "fill_ok ?bs n (nal_bs_fill ?bs n)"
          by (rule "1.IH"(2) [OF True Cons noskip "1.prems"])
        then show ?thesis unfolding eq fill_ok_def b .
      qed
    qed
  qed
qed

lemma bl_nat_snoc: "bl_nat (xs @ [b]) = 2 * bl_nat xs + of_bool b"
  by (simp add: bl_nat_def)

lemma bl_nat_Nil [simp]: "bl_nat [] = 0"
  by (simp add: bl_nat_def)

lemma bit_bl_nat: "bit (bl_nat xs) i \<longleftrightarrow> i < length xs \<and> xs ! (length xs - 1 - i)"
proof (induction xs arbitrary: i rule: rev_induct)
  case Nil
  then show ?case by simp
next
  case (snoc b xs)
  show ?case
  proof (cases i)
    case 0
    then show ?thesis by (simp add: bl_nat_snoc nth_append bit_0)
  next
    case (Suc j)
    have "bit (2 * bl_nat xs + of_bool b) (Suc j) = bit (bl_nat xs) j"
      by (cases b) (simp_all add: bit_Suc)
    also have "\<dots> \<longleftrightarrow> j < length xs \<and> xs ! (length xs - 1 - j)"
      by (rule snoc.IH)
    also have "\<dots> \<longleftrightarrow> Suc j < length (xs @ [b]) \<and> (xs @ [b]) ! (length (xs @ [b]) - 1 - Suc j)"
    proof (cases "j < length xs")
      case True
      then have "length xs - Suc j < length xs" by arith
      with True show ?thesis by (simp add: nth_append)
    next
      case False
      then show ?thesis by simp
    qed
    finally show ?thesis
      by (simp only: bl_nat_snoc Suc)
  qed
qed


lemma bit_word_bl_nat:
  "bit (word_of_nat (bl_nat xs) :: u32) i \<longleftrightarrow> i < 32 \<and> i < length xs \<and> xs ! (length xs - 1 - i)"
  by (simp add: bit_simps bit_bl_nat)

lemma nal_bs_read_bits:
  assumes "n \<le> 32"
  shows "fst (nal_bs_read bs n) = word_of_nat (bl_nat (take n (bits_of bs)))"
    and "bits_of (snd (nal_bs_read bs n)) = drop n (bits_of bs)"
proof -
  obtain bs' n' where f: "nal_bs_fill bs n = (bs', n')" by (cases "nal_bs_fill bs n")
  from nal_bs_fill_bits [OF assms, of bs] f
  have b: "bits_of bs' = bits_of bs"
    and c: "(n \<le> head bs' \<and> n' = n) \<or> (head bs' < n \<and> n' = head bs' \<and> data bs' = [])"
    by (simp_all add: fill_ok_def)
  from c have le: "n' \<le> head bs'" "n' \<le> 32" using assms by auto
  have tk: "take n (bits_of bs) = take n' (wbits (head bs') (cache bs'))"
    using c unfolding b [symmetric] by (auto simp: bits_of_def)
  have dr: "drop n (bits_of bs) = wbits (head bs' - n') (cache bs') @ concat (map obs_bits (obs (cache bs') (data bs')))"
    using c unfolding b [symmetric] by (auto simp: bits_of_def wbits_drop)
  let ?res = "(if 0 < head bs' - n' then ucast (drop_bit (head bs' - n') (cache bs')) else ucast (cache bs')) :: u32"
  have res: "?res = ucast (drop_bit (head bs' - n') (cache bs'))" by simp
  have val: "(if n' < 32 then ?res AND (push_bit n' 1 - 1) else ?res) = word_of_nat (bl_nat (take n' (wbits (head bs') (cache bs'))))"
  proof (rule bit_word_eqI)
    fix i assume "i < LENGTH(32)"
    then have i: "i < 32" by simp
    have m: "push_bit n' 1 - 1 = (mask n' :: u32)" by (simp add: mask_eq_exp_minus_1 push_bit_eq_mult)
    show "bit (if n' < 32 then ?res AND (push_bit n' 1 - 1) else ?res) i = bit (word_of_nat (bl_nat (take n' (wbits (head bs') (cache bs')))) :: u32) i"
      unfolding res m bit_word_bl_nat using i le
      by (auto simp: bit_simps wbits_nth min_def)
  qed
  show "fst (nal_bs_read bs n) = word_of_nat (bl_nat (take n (bits_of bs)))"
  proof (cases "n = 0")
    case True then show ?thesis by (simp add: nal_bs_read_def)
  next
    case False
    then show ?thesis unfolding tk val [symmetric] by (simp add: nal_bs_read_def f Let_def)
  qed
  show "bits_of (snd (nal_bs_read bs n)) = drop n (bits_of bs)"
  proof (cases "n = 0")
    case True then show ?thesis by (simp add: nal_bs_read_def)
  next
    case False
    then show ?thesis unfolding dr by (simp add: nal_bs_read_def f Let_def bits_of_def)
  qed
qed

lemma nal_bs_eos_bits: "nal_bs_eos bs \<Longrightarrow> bits_of bs = []"
  by (simp add: nal_bs_eos_def bits_of_def)

lemma nal_bs_read_empty_eos:
  assumes "bits_of bs = []" "0 < n" "n \<le> 32"
  shows "nal_bs_eos (snd (nal_bs_read bs n))"
proof -
  obtain bs' n' where f: "nal_bs_fill bs n = (bs', n')" by (cases "nal_bs_fill bs n")
  from nal_bs_fill_bits [OF assms(3), of bs] f assms(1)
  have b: "bits_of bs' = []"
    and c: "(n \<le> head bs' \<and> n' = n) \<or> (head bs' < n \<and> n' = head bs' \<and> data bs' = [])"
    by (simp_all add: fill_ok_def)
  from b have "length (wbits (head bs') (cache bs')) = 0" by (simp add: bits_of_def)
  then have "head bs' = 0" by simp
  with c assms(2) have "data bs' = []" "n' = 0" by auto
  with \<open>head bs' = 0\<close> assms(2) show ?thesis
    by (simp add: nal_bs_read_def f nal_bs_eos_def)
qed

lemma nal_bs_read_1:
  "fst (nal_bs_read bs 1) = (case bits_of bs of [] \<Rightarrow> 0 | t # _ \<Rightarrow> of_bool t)"
  by (simp add: nal_bs_read_bits(1) bl_nat_def split: list.splits)

lemma nal_bs_read_Suc0:
  "fst (nal_bs_read bs (Suc 0)) = (case bits_of bs of [] \<Rightarrow> 0 | t # _ \<Rightarrow> of_bool t)"
  using nal_bs_read_1 [of bs] by simp

lemma nal_bs_ue_zeros_step:
  "nal_bs_ue_zeros bs i =
     (if fst (nal_bs_read bs 1) = 0 \<and> \<not> nal_bs_eos (snd (nal_bs_read bs 1)) \<and> i < 31
      then nal_bs_ue_zeros (snd (nal_bs_read bs 1)) (i + 1) else (i, snd (nal_bs_read bs 1)))"
  by (subst nal_bs_ue_zeros.simps) (simp add: case_prod_unfold Let_def)

lemma nal_bs_ue_zeros_stop:
  "\<not> (fst (nal_bs_read bs 1) = 0 \<and> \<not> nal_bs_eos (snd (nal_bs_read bs 1)) \<and> i < 31) \<Longrightarrow>
   nal_bs_ue_zeros bs i = (i, snd (nal_bs_read bs 1))"
  by (subst nal_bs_ue_zeros_step) (simp only: if_False)

lemma nal_bs_ue_zeros_go:
  "fst (nal_bs_read bs 1) = 0 \<and> \<not> nal_bs_eos (snd (nal_bs_read bs 1)) \<and> i < 31 \<Longrightarrow>
   nal_bs_ue_zeros bs i = nal_bs_ue_zeros (snd (nal_bs_read bs 1)) (i + 1)"
  by (subst nal_bs_ue_zeros_step) (simp only: if_True simp_thms)

lemma nal_bs_ue_zeros_run:
  "bits_of bs = replicate k False @ t # rest \<Longrightarrow> i + k \<le> 31 \<Longrightarrow> t \<or> i + k = 31 \<Longrightarrow>
   fst (nal_bs_ue_zeros bs i) = i + k \<and> bits_of (snd (nal_bs_ue_zeros bs i)) = rest"
proof (induction k arbitrary: bs i)
  case 0
  then have v: "fst (nal_bs_read bs 1) = of_bool t" and r: "bits_of (snd (nal_bs_read bs 1)) = rest"
    by (simp_all add: nal_bs_read_Suc0 nal_bs_read_bits(2))
  from 0 v have "\<not> (fst (nal_bs_read bs 1) = 0 \<and> \<not> nal_bs_eos (snd (nal_bs_read bs 1)) \<and> i < 31)"
    by (cases t) auto
  then show ?case using r by (simp add: nal_bs_ue_zeros_stop)
next
  case (Suc k)
  let ?bs = "snd (nal_bs_read bs 1)"
  from Suc.prems have v: "fst (nal_bs_read bs 1) = 0" and r: "bits_of ?bs = replicate k False @ t # rest"
    by (simp_all add: nal_bs_read_Suc0 nal_bs_read_bits(2))
  from r have "\<not> nal_bs_eos ?bs" using nal_bs_eos_bits [of ?bs] by auto
  with v Suc.prems have c: "fst (nal_bs_read bs 1) = 0 \<and> \<not> nal_bs_eos ?bs \<and> i < 31" by simp
  have "fst (nal_bs_ue_zeros ?bs (i + 1)) = (i + 1) + k \<and> bits_of (snd (nal_bs_ue_zeros ?bs (i + 1))) = rest"
    using Suc.prems by (intro Suc.IH [OF r]) auto
  then show ?case by (simp add: nal_bs_ue_zeros_go [OF c])
qed

lemma nal_bs_ue_zeros_short:
  "bits_of bs = replicate z False \<Longrightarrow> i + z \<le> 31 \<Longrightarrow>
   (\<exists>k. fst (nal_bs_ue_zeros bs i) = i + k \<and> k \<le> z \<and> z \<le> k + 1) \<and>
   bits_of (snd (nal_bs_ue_zeros bs i)) = []"
proof (induction z arbitrary: bs i)
  case 0
  let ?bs = "snd (nal_bs_read bs 1)"
  from 0 have "nal_bs_eos ?bs" by (intro nal_bs_read_empty_eos) simp_all
  moreover from 0 have "bits_of ?bs = []" by (simp add: nal_bs_read_bits(2))
  ultimately show ?case by (simp add: nal_bs_ue_zeros_stop)
next
  case (Suc z)
  let ?bs = "snd (nal_bs_read bs 1)"
  from Suc.prems have v: "fst (nal_bs_read bs 1) = 0" and r: "bits_of ?bs = replicate z False"
    by (simp_all add: nal_bs_read_Suc0 nal_bs_read_bits(2))
  from Suc.prems have i: "i < 31" by simp
  show ?case
  proof (cases "nal_bs_eos ?bs")
    case True
    with r nal_bs_eos_bits [of ?bs] have "z = 0" by auto
    with True r show ?thesis by (simp add: nal_bs_ue_zeros_stop)
  next
    case False
    have "(\<exists>k. fst (nal_bs_ue_zeros ?bs (i + 1)) = (i + 1) + k \<and> k \<le> z \<and> z \<le> k + 1) \<and>
      bits_of (snd (nal_bs_ue_zeros ?bs (i + 1))) = []"
      using Suc.prems by (intro Suc.IH [OF r]) simp
    then obtain k where k: "fst (nal_bs_ue_zeros ?bs (i + 1)) = (i + 1) + k" "k \<le> z" "z \<le> k + 1"
      and e: "bits_of (snd (nal_bs_ue_zeros ?bs (i + 1))) = []" by blast
    have s: "nal_bs_ue_zeros bs i = nal_bs_ue_zeros ?bs (i + 1)"
      using False v i by (intro nal_bs_ue_zeros_go) simp
    from k have "fst (nal_bs_ue_zeros ?bs (i + 1)) = i + Suc k \<and> Suc k \<le> Suc z \<and> Suc z \<le> Suc k + 1" by simp
    then show ?thesis unfolding s using e by blast
  qed
qed

lemma lead_zeros_split: "xs = replicate (lead_zeros xs) False @ dropWhile Not xs"
proof -
  have "takeWhile Not xs = replicate (length (takeWhile Not xs)) False"
    by (rule replicate_eqI) (auto dest: set_takeWhileD)
  then have "takeWhile Not xs @ dropWhile Not xs = replicate (lead_zeros xs) False @ dropWhile Not xs"
    by (simp add: lead_zeros_def)
  then show ?thesis by simp
qed

lemma lead_zeros_le: "lead_zeros xs \<le> length xs"
  by (simp add: lead_zeros_def length_takeWhile_le)

lemma dropWhile_Not_cases:
  "dropWhile Not xs = [] \<and> lead_zeros xs = length xs \<or>
   (\<exists>rest. dropWhile Not xs = True # rest \<and> lead_zeros xs < length xs)"
proof (cases "dropWhile Not xs")
  case Nil
  with lead_zeros_split [of xs] have "length xs = lead_zeros xs"
    by (metis append_Nil2 length_replicate)
  with Nil show ?thesis by simp
next
  case (Cons t rest)
  then have "t" using hd_dropWhile [of Not xs] by auto
  moreover have "length xs = lead_zeros xs + length (dropWhile Not xs)"
    using lead_zeros_split [of xs] by (metis length_append length_replicate)
  ultimately show ?thesis using Cons by simp
qed

lemma sint_word_of_nat_small: "n < 2 ^ 31 \<Longrightarrow> sint (word_of_nat n :: u32) = int n"
  by (simp add: signed_of_nat signed_take_bit_int_eq_self)

lemma ue_word_nat: "push_bit k 1 - 1 + (word_of_nat m :: u32) = word_of_nat (2 ^ k - 1 + m)"
proof -
  have "(2::nat) ^ k - 1 + m = (2 ^ k + m) - 1" by simp
  moreover have "(word_of_nat ((2 ^ k + m) - 1) :: u32) = word_of_nat (2 ^ k + m) - word_of_nat 1"
  proof (rule of_nat_diff)
    have "(1::nat) \<le> 2 ^ k" by simp
    then show "(1::nat) \<le> 2 ^ k + m" by (rule trans_le_add1)
  qed
  ultimately show ?thesis by (simp add: push_bit_of_1)
qed


lemma nal_bs_read_ue_unfold:
  "nal_bs_read_ue bs =
     (push_bit (fst (nal_bs_ue_zeros bs 0)) 1 - 1
        + fst (nal_bs_read (snd (nal_bs_ue_zeros bs 0)) (fst (nal_bs_ue_zeros bs 0))),
      snd (nal_bs_read (snd (nal_bs_ue_zeros bs 0)) (fst (nal_bs_ue_zeros bs 0))))"
  by (simp add: nal_bs_read_ue_def case_prod_unfold Let_def)

lemma drop_run: "xs = replicate n False @ t # rest \<Longrightarrow> drop (Suc n) xs = rest"
  by simp

lemma nal_bs_ue_zeros_count:
  shows "fst (nal_bs_ue_zeros bs 0) \<le> 31"
    and "fst (nal_bs_ue_zeros bs 0) \<le> lead_zeros (bits_of bs)"
    and "lead_zeros (bits_of bs) < length (bits_of bs) \<or> 32 \<le> lead_zeros (bits_of bs) \<Longrightarrow>
         fst (nal_bs_ue_zeros bs 0) = min (lead_zeros (bits_of bs)) 31"
    and "bits_of (snd (nal_bs_ue_zeros bs 0)) = drop (Suc (fst (nal_bs_ue_zeros bs 0))) (bits_of bs)"
proof -
  let ?bits = "bits_of bs"
  let ?k = "fst (nal_bs_ue_zeros bs 0)"
  let ?z = "lead_zeros ?bits"
  have sp: "?bits = replicate ?z False @ dropWhile Not ?bits" by (rule lead_zeros_split)
  consider (cap) "32 \<le> ?z"
    | (run) rest where "?z \<le> 31" "dropWhile Not ?bits = True # rest" "?z < length ?bits"
    | (short) "?z \<le> 31" "dropWhile Not ?bits = []" "?z = length ?bits"
    using dropWhile_Not_cases [of ?bits] by fastforce
  then have "?k \<le> 31 \<and> ?k \<le> ?z \<and> (?z < length ?bits \<or> 32 \<le> ?z \<longrightarrow> ?k = min ?z 31)
      \<and> bits_of (snd (nal_bs_ue_zeros bs 0)) = drop (Suc ?k) ?bits"
  proof cases
    case cap
    then have "replicate ?z False = replicate 31 False @ False # replicate (?z - 32) False"
      by (simp add: replicate_add [symmetric] flip: replicate_Suc replicate_append_same)
    with sp have b: "?bits = replicate 31 False @ False # (replicate (?z - 32) False @ dropWhile Not ?bits)"
      by simp
    have "?k = 0 + 31 \<and> bits_of (snd (nal_bs_ue_zeros bs 0)) = replicate (?z - 32) False @ dropWhile Not ?bits"
      by (rule nal_bs_ue_zeros_run [OF b]) simp_all
    moreover have "drop (Suc 31) ?bits = replicate (?z - 32) False @ dropWhile Not ?bits"
      by (rule drop_run [OF b])
    ultimately show ?thesis using cap by simp
  next
    case run
    with sp have b: "?bits = replicate ?z False @ True # rest"
      by simp
    have "?k = 0 + ?z \<and> bits_of (snd (nal_bs_ue_zeros bs 0)) = rest"
      using run by (intro nal_bs_ue_zeros_run [OF b]) simp_all
    moreover have "drop (Suc ?z) ?bits = rest"
      by (rule drop_run [OF b])
    ultimately show ?thesis using run by simp
  next
    case short
    with sp have b: "?bits = replicate ?z False"
      by simp
    have "(\<exists>j. ?k = 0 + j \<and> j \<le> ?z \<and> ?z \<le> j + 1) \<and>
      bits_of (snd (nal_bs_ue_zeros bs 0)) = []"
      using short by (intro nal_bs_ue_zeros_short [OF b]) simp
    then show ?thesis using short by auto
  qed
  then show "?k \<le> 31" and "?k \<le> ?z"
    and "?z < length ?bits \<or> 32 \<le> ?z \<Longrightarrow> ?k = min ?z 31"
    and "bits_of (snd (nal_bs_ue_zeros bs 0)) = drop (Suc ?k) ?bits"
    by blast+
qed

lemma se_map:
  fixes w :: u32
  assumes "sint w \<noteq> 2 ^ 31 - 1"
  shows "sint (word_of_int (sint (w + 1) sdiv 2) * (if w AND 1 \<noteq> 0 then 1 else - 1) :: u32)
         = (sint w + 1) sdiv 2 * (if odd (sint w) then 1 else - 1)"
proof -
  have lo: "- (2 ^ 31) \<le> sint w" and hi: "sint w < 2 ^ 31"
    using sint_ge [of w] sint_lt [of w] by simp_all
  with assms have hi': "sint w + 1 < 2 ^ 31" by simp
  have s1: "sint (w + 1) = sint w + 1"
    using lo hi' by (simp add: sint_word_ariths signed_take_bit_int_eq_self)
  define q where "q = (sint w + 1) sdiv 2"
  have qb: "- (2 ^ 30) \<le> q" "q \<le> 2 ^ 30"
    using lo hi' unfolding q_def signed_divide_int_def by (auto simp: sgn_if)
  have sq: "sint (word_of_int q :: u32) = q"
    using qb by (simp add: signed_of_int signed_take_bit_int_eq_self)
  have snq: "sint (- (word_of_int q) :: u32) = - q"
    using qb by (simp add: sint_word_ariths sq signed_take_bit_int_eq_self)
  have "odd (sint w) \<longleftrightarrow> bit (sint w) 0" by (simp add: bit_0)
  also have "\<dots> \<longleftrightarrow> bit w 0" by (simp add: bit_sint_iff)
  also have "\<dots> \<longleftrightarrow> odd w" by (simp add: bit_0)
  also have "\<dots> \<longleftrightarrow> w AND 1 \<noteq> 0" by (simp add: and_one_eq odd_iff_mod_2_eq_one)
  finally have od: "w AND 1 \<noteq> 0 \<longleftrightarrow> odd (sint w)" by simp
  show ?thesis
    unfolding s1 q_def [symmetric] od using sq snq by simp
qed

lemma bl_nat_less: "bl_nat xs < 2 ^ length xs"
proof (induction xs rule: rev_induct)
  case Nil then show ?case by simp
next
  case (snoc b xs)
  then show ?case by (cases b) (simp_all add: bl_nat_snoc)
qed

text \<open>
  Claim C5. At every reader state, \<^verbatim>\<open>nal_bs_read_ue\<close> counts \<open>k \<le> 31\<close> bits, all
  of them leading zero bits of what the reader still holds, skips the bit that ends the
  run, reads \<open>k\<close> further bits \<open>v\<close> (as many as the stream still has) and returns
  \<^verbatim>\<open>(1 << k) - 1 + v\<close> as a 32-bit value. \<open>k\<close> is the whole run of zeros, capped
  at 31, whenever a bit of the stream ends the run or the run has 32 zeros. Up to
  \<open>k = 30\<close> the sum does not wrap. \<^verbatim>\<open>nal_bs_read_se\<close> consumes the same bits
  and, for \<open>i\<close> the value of the unsigned read, returns \<^verbatim>\<open>(i + 1) / 2\<close> (division
  truncating) with sign \<open>+\<close> for odd and \<open>-\<close> for even \<open>i\<close>; at \<open>i = INT_MAX\<close>
  the C sum \<^verbatim>\<open>i + 1\<close> overflows.
\<close>

theorem nal_bs_read_ue_se_value:
  "let bits = bits_of bs;
       k = fst (nal_bs_ue_zeros bs 0);
       v = bl_nat (take k (drop (Suc k) bits));
       i = sint (fst (nal_bs_read_ue bs))
   in k \<le> 31 \<and> k \<le> lead_zeros bits \<and>
      (lead_zeros bits < length bits \<or> 32 \<le> lead_zeros bits \<longrightarrow> k = min (lead_zeros bits) 31) \<and>
      fst (nal_bs_read_ue bs) = push_bit k 1 - 1 + word_of_nat v \<and>
      bits_of (snd (nal_bs_read_ue bs)) = drop (2 * k + 1) bits \<and>
      (k \<le> 30 \<longrightarrow> i = 2 ^ k - 1 + int v) \<and>
      snd (nal_bs_read_se bs) = snd (nal_bs_read_ue bs) \<and>
      (i \<noteq> 2 ^ 31 - 1 \<longrightarrow>
         sint (fst (nal_bs_read_se bs)) = (i + 1) sdiv 2 * (if odd i then 1 else - 1))"
proof -
  let ?bits = "bits_of bs"
  let ?k = "fst (nal_bs_ue_zeros bs 0)"
  let ?bs1 = "snd (nal_bs_ue_zeros bs 0)"
  let ?v = "bl_nat (take ?k (drop (Suc ?k) ?bits))"
  let ?i = "sint (fst (nal_bs_read_ue bs))"
  note c = nal_bs_ue_zeros_count [of bs]
  have k32: "?k \<le> 32" using c(1) by simp
  have val: "fst (nal_bs_read_ue bs) = push_bit ?k 1 - 1 + word_of_nat ?v"
    by (simp add: nal_bs_read_ue_unfold nal_bs_read_bits(1) [OF k32] c(4))
  have rest: "bits_of (snd (nal_bs_read_ue bs)) = drop (2 * ?k + 1) ?bits"
    by (simp add: nal_bs_read_ue_unfold nal_bs_read_bits(2) [OF k32] c(4) mult_2)
  have num: "?i = 2 ^ ?k - 1 + int ?v" if "?k \<le> 30"
  proof -
    have "?v < 2 ^ length (take ?k (drop (Suc ?k) ?bits))" by (rule bl_nat_less)
    also have "\<dots> \<le> 2 ^ ?k" by (rule power_increasing) simp_all
    finally have v: "?v < 2 ^ ?k" .
    have "(2::nat) ^ ?k \<le> 2 ^ 30" using that by (rule power_increasing) simp
    with v have "2 ^ ?k - 1 + ?v < 2 ^ 31" by simp
    then have "sint (word_of_nat (2 ^ ?k - 1 + ?v) :: u32) = int (2 ^ ?k - 1 + ?v)"
      by (rule sint_word_of_nat_small)
    moreover have "int ((2::nat) ^ ?k - 1) = 2 ^ ?k - 1"
      by (subst of_nat_diff) simp_all
    then have "int (2 ^ ?k - 1 + ?v) = 2 ^ ?k - 1 + int ?v"
      by (simp only: of_nat_add)
    ultimately show ?thesis unfolding val ue_word_nat by (simp only:)
  qed
  have se_st: "snd (nal_bs_read_se bs) = snd (nal_bs_read_ue bs)"
    by (simp add: nal_bs_read_se_def case_prod_unfold Let_def)
  have se_val: "sint (fst (nal_bs_read_se bs)) = (?i + 1) sdiv 2 * (if odd ?i then 1 else - 1)"
    if "?i \<noteq> 2 ^ 31 - 1"
    using se_map [OF that] by (simp add: nal_bs_read_se_def case_prod_unfold Let_def)
  show ?thesis
    unfolding Let_def using c(1,2,3) val rest num se_st se_val by blast
qed

theorem nal_bs_read_ue_se_value_witness:
  "lead_zeros (bits_of (nal_bs_init [0x28])) < length (bits_of (nal_bs_init [0x28])) \<and>
   fst (nal_bs_ue_zeros (nal_bs_init [0x28]) 0) = 2 \<and>
   fst (nal_bs_read_ue (nal_bs_init [0x28])) = 4 \<and>
   sint (fst (nal_bs_read_ue (nal_bs_init [0x28]))) \<noteq> 2 ^ 31 - 1 \<and>
   sint (fst (nal_bs_read_se (nal_bs_init [0x28]))) = - 2"
proof -
  let ?B = "nal_bs_init [0x28]"
  have bits: "bits_of ?B = [False, False, True, False, True, False, False, False]"
    by code_simp
  have z: "lead_zeros (bits_of ?B) = 2"
    unfolding bits by (simp add: lead_zeros_def)
  have v: "bl_nat (take 2 (drop (Suc 2) (bits_of ?B))) = 1"
    unfolding bits by (simp add: bl_nat_def)
  note t = nal_bs_read_ue_se_value [of ?B, unfolded Let_def]
  from t z have k: "fst (nal_bs_ue_zeros ?B 0) = 2"
    by (simp add: bits)
  from t have ue: "fst (nal_bs_read_ue ?B) = 4"
    unfolding k v by simp
  then have i: "sint (fst (nal_bs_read_ue ?B)) = 4" by simp
  from t have "sint (fst (nal_bs_read_se ?B)) = (4 + 1) sdiv 2 * (if odd (4::int) then 1 else - 1)"
    unfolding i by simp
  then have se: "sint (fst (nal_bs_read_se ?B)) = - 2"
    by (simp add: signed_divide_int_def)
  show ?thesis using z k ue i se by (simp add: bits)
qed

lemma obs_Nil_iff: "obs c d = [] \<longleftrightarrow> d = []"
  by (cases d) (simp_all split: list.splits)

lemma obs_None_iff: "obs c d = [None] \<longleftrightarrow> d = [0x03] \<and> c AND 0xffff = 0"
proof (cases d)
  case Nil then show ?thesis by simp
next
  case (Cons a d')
  then show ?thesis by (cases d') (auto simp: obs_Nil_iff)
qed

lemma obs_Some_cases:
  assumes "obs c d = Some b # t"
  shows "\<exists>d'. t = obs (push_bit 8 c OR ucast b) d' \<and>
      ((\<exists>a. d = a # d' \<and> a = b \<and> \<not> (a = 0x03 \<and> c AND 0xffff = 0)) \<or>
       (d = 0x03 # b # d' \<and> c AND 0xffff = 0))"
proof (cases d)
  case Nil with assms show ?thesis by simp
next
  case (Cons a d')
  show ?thesis
  proof (cases "a = 0x03 \<and> c AND 0xffff = 0")
    case True
    with assms Cons show ?thesis by (cases d') simp_all
  next
    case False
    with assms Cons show ?thesis by auto
  qed
qed


lemma same_view_fill:
  "same_view a b \<Longrightarrow>
   snd (nal_bs_fill a n) = snd (nal_bs_fill b n) \<and> same_view (fst (nal_bs_fill a n)) (fst (nal_bs_fill b n))"
proof (induction a n arbitrary: b rule: nal_bs_fill.induct)
  case (1 a n)
  from "1.prems" have hd: "head b = head a" and ca: "cache b = cache a"
    and ob: "obs (cache a) (data a) = obs (cache a) (data b)"
    by (auto simp: same_view_def)
  show ?case
  proof (cases "head a < n")
    case False
    with hd "1.prems" show ?thesis by (simp add: nal_bs_fill_done)
  next
    case True
    then have Tb: "head b < n" using hd by simp
    show ?thesis
    proof (cases "obs (cache a) (data a)")
      case Nil
      with ob have "obs (cache a) (data a) = []" "obs (cache a) (data b) = []" by simp_all
      then have "data a = []" "data b = []" by (simp_all only: obs_Nil_iff)
      with True Tb "1.prems" hd show ?thesis by (simp add: nal_bs_fill_end)
    next
      case (Cons x t)
      show ?thesis
      proof (cases x)
        case None
        have "t = []" using Cons None
        proof (cases "data a")
          case Nil with Cons show ?thesis by simp
        next
          case (Cons y ys)
          with \<open>obs (cache a) (data a) = x # t\<close> None show ?thesis
            by (cases ys; cases "y = 0x03 \<and> cache a AND 0xffff = 0") simp_all
        qed
        with Cons None ob have "obs (cache a) (data a) = [None]" "obs (cache a) (data b) = [None]" by simp_all
        then have da: "data a = [0x03]" and db: "data b = [0x03]" and z: "cache a AND 0xffff = 0"
          by (simp_all only: obs_None_iff)
        have "nal_bs_fill a n = (a\<lparr>data := []\<rparr>, head a)"
          using True da z by (intro nal_bs_fill_skip_end) simp_all
        moreover have "nal_bs_fill b n = (b\<lparr>data := []\<rparr>, head b)"
          using Tb db z ca by (intro nal_bs_fill_skip_end) simp_all
        ultimately show ?thesis using hd ca by (simp add: same_view_def)
      next
        case (Some v)
        let ?c = "push_bit 8 (cache a) OR ucast v"
        from obs_Some_cases [of "cache a" "data a" v t] Cons Some
        obtain da where ta: "t = obs ?c da"
          and ca': "(\<exists>x. data a = x # da \<and> x = v \<and> \<not> (x = 0x03 \<and> cache a AND 0xffff = 0)) \<or>
                (data a = 0x03 # v # da \<and> cache a AND 0xffff = 0)" by auto
        from obs_Some_cases [of "cache a" "data b" v t] Cons Some ob
        obtain db where tb: "t = obs ?c db"
          and cb': "(\<exists>x. data b = x # db \<and> x = v \<and> \<not> (x = 0x03 \<and> cache a AND 0xffff = 0)) \<or>
                (data b = 0x03 # v # db \<and> cache a AND 0xffff = 0)" by auto
        let ?a = "a\<lparr>data := da, cache := ?c, head := head a + 8\<rparr>"
        let ?b = "b\<lparr>data := db, cache := ?c, head := head a + 8\<rparr>"
        have fb: "nal_bs_fill b n = nal_bs_fill ?b n"
          using cb'
        proof
          assume "\<exists>x. data b = x # db \<and> x = v \<and> \<not> (x = 0x03 \<and> cache a AND 0xffff = 0)"
          then show ?thesis using nal_bs_fill_keep [of b n v db] Tb ca hd by auto
        next
          assume "data b = 0x03 # v # db \<and> cache a AND 0xffff = 0"
          then show ?thesis using nal_bs_fill_skip [of b n 3 v db] Tb ca hd by auto
        qed
        have sv: "same_view ?a ?b" using ta tb by (simp add: same_view_def)
        from ca' show ?thesis
        proof
          assume k: "\<exists>x. data a = x # da \<and> x = v \<and> \<not> (x = 0x03 \<and> cache a AND 0xffff = 0)"
          then have fa: "nal_bs_fill a n = nal_bs_fill ?a n"
            using nal_bs_fill_keep [of a n v da] True by auto
          from k have "data a = v # da" "\<not> (v = 0x03 \<and> cache a AND 0xffff = 0)" by auto
          from "1.IH"(2) [OF True this sv] show ?thesis unfolding fa fb .
        next
          assume k: "data a = 0x03 # v # da \<and> cache a AND 0xffff = 0"
          then have fa: "nal_bs_fill a n = nal_bs_fill ?a n"
            using nal_bs_fill_skip [of a n 3 v da] True by auto
          from k have "data a = 0x03 # v # da" "(0x03::u8) = 0x03 \<and> cache a AND 0xffff = 0" "v # da = v # da" by auto
          from "1.IH"(1) [OF True this sv] show ?thesis unfolding fa fb .
        qed
      qed
    qed
  qed
qed

lemma same_view_head: "same_view a b \<Longrightarrow> same_view (a\<lparr>head := k\<rparr>) (b\<lparr>head := k\<rparr>)"
  by (auto simp: same_view_def)

lemma same_view_read:
  assumes "same_view a b"
  shows "fst (nal_bs_read a n) = fst (nal_bs_read b n)"
    and "same_view (snd (nal_bs_read a n)) (snd (nal_bs_read b n))"
proof -
  from same_view_fill [OF assms, of n]
  have n: "snd (nal_bs_fill a n) = snd (nal_bs_fill b n)"
    and v: "same_view (fst (nal_bs_fill a n)) (fst (nal_bs_fill b n))" by simp_all
  from v have h: "head (fst (nal_bs_fill a n)) = head (fst (nal_bs_fill b n))"
    and c: "cache (fst (nal_bs_fill a n)) = cache (fst (nal_bs_fill b n))"
    by (simp_all add: same_view_def)
  show "fst (nal_bs_read a n) = fst (nal_bs_read b n)"
    by (simp add: nal_bs_read_def case_prod_unfold Let_def n h c)
  show "same_view (snd (nal_bs_read a n)) (snd (nal_bs_read b n))"
  proof (cases "n = 0")
    case True
    with assms show ?thesis by (simp add: nal_bs_read_def)
  next
    case False
    from v have "same_view (fst (nal_bs_fill a n)\<lparr>head := k\<rparr>) (fst (nal_bs_fill b n)\<lparr>head := k\<rparr>)" for k
      by (rule same_view_head)
    with False show ?thesis
      by (simp add: nal_bs_read_def case_prod_unfold Let_def n h)
  qed
qed

lemma same_view_eos: "same_view a b \<Longrightarrow> nal_bs_eos a = nal_bs_eos b"
proof -
  assume s: "same_view a b"
  then have "obs (cache a) (data a) = [] \<longleftrightarrow> obs (cache a) (data b) = []"
    by (auto simp: same_view_def)
  then have "data a = [] \<longleftrightarrow> data b = []" by (simp only: obs_Nil_iff)
  with s show ?thesis by (simp add: nal_bs_eos_def same_view_def)
qed

lemma same_view_ue_zeros:
  "same_view a b \<Longrightarrow>
   fst (nal_bs_ue_zeros a i) = fst (nal_bs_ue_zeros b i) \<and>
   same_view (snd (nal_bs_ue_zeros a i)) (snd (nal_bs_ue_zeros b i))"
proof (induction a i arbitrary: b rule: nal_bs_ue_zeros.induct)
  case (1 a i)
  let ?a = "snd (nal_bs_read a 1)" and ?b = "snd (nal_bs_read b 1)"
  note r = same_view_read [OF "1.prems", of 1]
  note e = same_view_eos [OF r(2)]
  show ?case
  proof (cases "fst (nal_bs_read a 1) = 0 \<and> \<not> nal_bs_eos ?a \<and> i < 31")
    case True
    then have Tb: "fst (nal_bs_read b 1) = 0 \<and> \<not> nal_bs_eos ?b \<and> i < 31"
      using r(1) e by simp
    have "fst (nal_bs_ue_zeros ?a (i + 1)) = fst (nal_bs_ue_zeros ?b (i + 1)) \<and>
      same_view (snd (nal_bs_ue_zeros ?a (i + 1))) (snd (nal_bs_ue_zeros ?b (i + 1)))"
      by (rule "1.IH" [OF refl prod.collapse True r(2)])
    then show ?thesis
      unfolding nal_bs_ue_zeros_go [OF True] nal_bs_ue_zeros_go [OF Tb] .
  next
    case False
    then have Fb: "\<not> (fst (nal_bs_read b 1) = 0 \<and> \<not> nal_bs_eos ?b \<and> i < 31)"
      using r(1) e by simp
    show ?thesis
      unfolding nal_bs_ue_zeros_stop [OF False] nal_bs_ue_zeros_stop [OF Fb] using r(2) by simp
  qed
qed

lemma same_view_ue:
  assumes "same_view a b"
  shows "fst (nal_bs_read_ue a) = fst (nal_bs_read_ue b)"
    and "same_view (snd (nal_bs_read_ue a)) (snd (nal_bs_read_ue b))"
proof -
  note z = same_view_ue_zeros [OF assms, of 0]
  from z have k: "fst (nal_bs_ue_zeros a 0) = fst (nal_bs_ue_zeros b 0)"
    and s: "same_view (snd (nal_bs_ue_zeros a 0)) (snd (nal_bs_ue_zeros b 0))" by simp_all
  note r = same_view_read [OF s, of "fst (nal_bs_ue_zeros b 0)"]
  show "fst (nal_bs_read_ue a) = fst (nal_bs_read_ue b)"
    unfolding nal_bs_read_ue_unfold k using r(1) by simp
  show "same_view (snd (nal_bs_read_ue a)) (snd (nal_bs_read_ue b))"
    unfolding nal_bs_read_ue_unfold k using r(2) by simp
qed

lemma same_view_se:
  assumes "same_view a b"
  shows "fst (nal_bs_read_se a) = fst (nal_bs_read_se b)"
    and "same_view (snd (nal_bs_read_se a)) (snd (nal_bs_read_se b))"
  using same_view_ue [OF assms] by (simp_all add: nal_bs_read_se_def case_prod_unfold Let_def)

lemma same_view_run_op:
  assumes "same_view a b"
  shows "fst (run_op x a) = fst (run_op x b)"
    and "same_view (snd (run_op x a)) (snd (run_op x b))"
  using same_view_read [OF assms] same_view_ue [OF assms] same_view_se [OF assms]
  by (cases x; simp)+

lemma same_view_run_ops: "same_view a b \<Longrightarrow> run_ops xs a = run_ops xs b"
proof (induction xs arbitrary: a b)
  case Nil
  then show ?case by simp
next
  case (Cons x xs)
  note r = same_view_run_op [OF Cons.prems, of x]
  from Cons.IH [OF r(2)] r(1) show ?case by (simp add: case_prod_unfold Let_def)
qed

lemma push0_low8: "(push_bit 8 c OR ucast (0::u8)) AND 0xff = (0::u64)"
proof -
  have "(push_bit 8 c OR ucast (0::u8)) AND mask 8 = (0::u64)"
    by (rule bit_word_eqI) (auto simp: bit_simps)
  then show ?thesis by (simp add: mask_eq_exp_minus_1)
qed

lemma push0_low16: "(c::u64) AND 0xff = 0 \<Longrightarrow> (push_bit 8 c OR ucast (0::u8)) AND 0xffff = 0"
proof -
  assume a: "c AND 0xff = 0"
  have a': "c AND mask 8 = 0" using a by (simp add: mask_eq_exp_minus_1)
  have b: "\<not> bit c i" if "i < 8" for i
  proof -
    from a' have "bit (c AND mask 8) i = bit (0::u64) i" by simp
    with that show ?thesis by (simp add: bit_simps)
  qed
  have "(push_bit 8 c OR ucast (0::u8)) AND mask 16 = (0::u64)"
  proof (rule bit_word_eqI)
    fix i assume "i < LENGTH(64)"
    show "bit ((push_bit 8 c OR ucast (0::u8)) AND mask 16) i = bit (0::u64) i"
    proof (cases "8 \<le> i \<and> i < 16")
      case True
      then have "i - 8 < 8" by arith
      from b [OF this] show ?thesis by (simp add: bit_simps)
    next
      case False
      then show ?thesis by (auto simp: bit_simps)
    qed
  qed
  then show ?thesis by (simp add: mask_eq_exp_minus_1)
qed

lemma obs_insert_tail:
  assumes "(c::u64) AND 0xff = 0" "b \<noteq> 0x03"
  shows "obs c (0 # 0x03 # b # r) = obs c (0 # b # r)"
  using push0_low16 [OF assms(1)] assms(2) by simp

lemma obs_insert:
  "b \<noteq> 0x03 \<Longrightarrow> obs c (p @ 0 # 0 # 0x03 # b # r) = obs c (p @ 0 # 0 # b # r)"
proof (induction c p rule: obs.induct)
  case (1 c)
  have "obs (push_bit 8 c OR ucast (0::u8)) (0 # 0x03 # b # r) = obs (push_bit 8 c OR ucast (0::u8)) (0 # b # r)"
    using push0_low8 1 by (rule obs_insert_tail)
  then show ?case by simp
next
  case (2 c a d)
  show ?case
  proof (cases "a = 0x03 \<and> c AND 0xffff = 0")
    case False
    with 2 show ?thesis by auto
  next
    case True
    show ?thesis
    proof (cases d)
      case Nil
      have "obs (push_bit 8 c OR ucast (0::u8)) (0 # 0x03 # b # r) = obs (push_bit 8 c OR ucast (0::u8)) (0 # b # r)"
        using push0_low8 "2.prems" by (rule obs_insert_tail)
      with True Nil show ?thesis by simp
    next
      case (Cons y ys)
      with 2 True show ?thesis by simp
    qed
  qed
qed

lemma low8_push:
  "(ucast (push_bit 8 (c::u64) OR ucast (b::u8)) :: u32) AND (push_bit 8 1 - 1) = ucast b"
proof -
  have "(ucast (push_bit 8 c OR ucast b) :: u32) AND mask 8 = ucast b"
    by (rule bit_word_eqI) (auto simp: bit_simps dest: bit_imp_le_length)
  then show ?thesis by (simp add: mask_eq_exp_minus_1)
qed

lemma nal_bs_read_byte_after_03:
  assumes "head bs = 0" "data bs = 0x03 # b # d"
  shows "fst (nal_bs_read bs 8) = (if cache bs AND 0xffff = 0 then ucast b else 0x03)"
proof (cases "cache bs AND 0xffff = 0")
  case True
  have "nal_bs_fill bs 8 = nal_bs_fill (bs\<lparr>data := d, cache := push_bit 8 (cache bs) OR ucast b, head := head bs + 8\<rparr>) 8"
    using assms True by (intro nal_bs_fill_skip) simp_all
  also have "\<dots> = (bs\<lparr>data := d, cache := push_bit 8 (cache bs) OR ucast b, head := head bs + 8\<rparr>, 8)"
    using assms by (intro nal_bs_fill_done) simp
  finally show ?thesis using True assms low8_push [of "cache bs" b]
    by (simp add: nal_bs_read_def)
next
  case False
  have "nal_bs_fill bs 8 = nal_bs_fill (bs\<lparr>data := b # d, cache := push_bit 8 (cache bs) OR ucast (0x03::u8), head := head bs + 8\<rparr>) 8"
    using assms False by (intro nal_bs_fill_keep) simp_all
  also have "\<dots> = (bs\<lparr>data := b # d, cache := push_bit 8 (cache bs) OR ucast (0x03::u8), head := head bs + 8\<rparr>, 8)"
    using assms by (intro nal_bs_fill_done) simp
  finally show ?thesis using False assms low8_push [of "cache bs" 3]
    by (simp add: nal_bs_read_def)
qed

text \<open>
  Claim C6, as amended. A raw byte 0x03 met by the reader is discarded when the low
  16 bits of the cache are zero (the last two bytes that entered the cache were 0x00),
  and then the byte after it enters the cache whatever it is, also when it is 0x03:
  a byte-aligned read of 8 bits before the bytes \<open>03 b\<close> returns \<open>b\<close> when the low 16
  cache bits are zero and \<open>03\<close> otherwise. Consequently, inserting a 0x03 after a
  \<open>00 00\<close> pair that is followed by a byte other than 0x03 gives a stream from which
  every sequence of \<^verbatim>\<open>nal_bs_read\<close>, \<^verbatim>\<open>nal_bs_read_ue\<close> and \<^verbatim>\<open>nal_bs_read_se\<close>
  calls returns the same values.
\<close>

theorem nal_bs_emulation_prevention:
  "(head bs = 0 \<and> data bs = 0x03 # b # d \<longrightarrow>
      fst (nal_bs_read bs 8) = (if cache bs AND 0xffff = 0 then ucast b else 0x03)) \<and>
   (b \<noteq> 0x03 \<longrightarrow>
      run_ops xs (nal_bs_init (p @ 0 # 0 # 0x03 # b # r)) = run_ops xs (nal_bs_init (p @ 0 # 0 # b # r)))"
proof (intro conjI impI)
  assume "head bs = 0 \<and> data bs = 0x03 # b # d"
  then show "fst (nal_bs_read bs 8) = (if cache bs AND 0xffff = 0 then ucast b else 0x03)"
    using nal_bs_read_byte_after_03 by blast
next
  assume "b \<noteq> 0x03"
  then have "same_view (nal_bs_init (p @ 0 # 0 # 0x03 # b # r)) (nal_bs_init (p @ 0 # 0 # b # r))"
    by (simp add: same_view_def nal_bs_init_def obs_insert)
  then show "run_ops xs (nal_bs_init (p @ 0 # 0 # 0x03 # b # r)) = run_ops xs (nal_bs_init (p @ 0 # 0 # b # r))"
    by (rule same_view_run_ops)
qed

theorem nal_bs_emulation_prevention_witness:
  "fst (nal_bs_read \<lparr>data = [0x03, 0x03, 0x07], head = 0, cache = 0\<rparr> 8) = 0x03 \<and>
   (0x01::u8) \<noteq> 0x03 \<and>
   run_ops [ReadUe, ReadBits 8] (nal_bs_init ([0x80] @ 0 # 0 # 0x03 # 0x01 # [0x05]))
     = run_ops [ReadUe, ReadBits 8] (nal_bs_init ([0x80] @ 0 # 0 # 0x01 # [0x05]))"
  using nal_bs_emulation_prevention [of "\<lparr>data = [0x03, 0x03, 0x07], head = 0, cache = 0\<rparr>" "0x03" "[0x07]"]
    nal_bs_emulation_prevention [of _ "0x01" _ "[ReadUe, ReadBits 8]" "[0x80]" "[0x05]"]
  by simp

text \<open>
  The claim as first stated fails: in \<open>00 00 03 03\<close> the second 0x03 is kept although
  the last two bytes consumed were zero, so inserting a 0x03 after the pair of
  \<open>00 00 03\<close> changes what is read; and a 0x03 inserted at the very end of \<open>00 00\<close>
  delays the end of stream that \<^verbatim>\<open>nal_bs_read_ue\<close> tests.
\<close>

theorem nal_bs_emulation_prevention_counterexample:
  "run_ops [ReadBits 16, ReadBits 8] (nal_bs_init [0, 0, 0x03, 0x03]) = [0, 0x03] \<and>
   run_ops [ReadBits 16, ReadBits 8] (nal_bs_init [0, 0, 0x03]) = [0, 0] \<and>
   run_ops [ReadUe] (nal_bs_init [0, 0, 0x03]) = [65535] \<and>
   run_ops [ReadUe] (nal_bs_init [0, 0]) = [32767]"
  by code_simp

lemma Apply_sel [simp]:
  "m_codec (ApplyMasteringDisplayColourVolume st v) = m_codec st"
  "m_to_annexb (ApplyMasteringDisplayColourVolume st v) = m_to_annexb st"
  "m_convert_bitstream (ApplyMasteringDisplayColourVolume st v) = m_convert_bitstream st"
  "m_sps_pps_context (ApplyMasteringDisplayColourVolume st v) = m_sps_pps_context st"
  "m_start_decode (ApplyMasteringDisplayColourVolume st v) = m_start_decode st"
  "m_hints (ApplyMasteringDisplayColourVolume st v) = m_hints st"
  "m_first_frame (ApplyMasteringDisplayColourVolume st v) = m_first_frame st"
  "m_intial_hdrType (ApplyMasteringDisplayColourVolume st v) = m_intial_hdrType st"
  "m_dual_priority_Hdr10Plus (ApplyMasteringDisplayColourVolume st v) = m_dual_priority_Hdr10Plus st"
  "m_prefer_Hdr10Plus_conversion (ApplyMasteringDisplayColourVolume st v) = m_prefer_Hdr10Plus_conversion st"
  "m_convert_Hdr10Plus (ApplyMasteringDisplayColourVolume st v) = m_convert_Hdr10Plus st"
  "m_removeHdr10Plus (ApplyMasteringDisplayColourVolume st v) = m_removeHdr10Plus st"
  "m_codec (ApplyContentLightLevel st w) = m_codec st"
  "m_to_annexb (ApplyContentLightLevel st w) = m_to_annexb st"
  "m_convert_bitstream (ApplyContentLightLevel st w) = m_convert_bitstream st"
  "m_sps_pps_context (ApplyContentLightLevel st w) = m_sps_pps_context st"
  "m_start_decode (ApplyContentLightLevel st w) = m_start_decode st"
  "m_hints (ApplyContentLightLevel st w) = m_hints st"
  "m_first_frame (ApplyContentLightLevel st w) = m_first_frame st"
  "m_intial_hdrType (ApplyContentLightLevel st w) = m_intial_hdrType st"
  "m_dual_priority_Hdr10Plus (ApplyContentLightLevel st w) = m_dual_priority_Hdr10Plus st"
  "m_prefer_Hdr10Plus_conversion (ApplyContentLightLevel st w) = m_prefer_Hdr10Plus_conversion st"
  "m_convert_Hdr10Plus (ApplyContentLightLevel st w) = m_convert_Hdr10Plus st"
  "m_removeHdr10Plus (ApplyContentLightLevel st w) = m_removeHdr10Plus st"
  by (simp_all add: ApplyMasteringDisplayColourVolume_def ApplyContentLightLevel_def Let_def)

lemma ProcessSeiPrefix_sel [simp]:
  "m_codec (fst (ProcessSeiPrefix x st nal out meta)) = m_codec st"
  "m_to_annexb (fst (ProcessSeiPrefix x st nal out meta)) = m_to_annexb st"
  "m_convert_bitstream (fst (ProcessSeiPrefix x st nal out meta)) = m_convert_bitstream st"
  "m_sps_pps_context (fst (ProcessSeiPrefix x st nal out meta)) = m_sps_pps_context st"
  "m_start_decode (fst (ProcessSeiPrefix x st nal out meta)) = m_start_decode st"
  "dovi (m_hints (fst (ProcessSeiPrefix x st nal out meta))) = dovi (m_hints st)"
  by (simp_all add: ProcessSeiPrefix_def Let_def split: option.splits)

lemma get_dovi_rpu_info_sel [simp]:
  "m_codec (get_dovi_rpu_info x st nal) = m_codec st"
  "m_to_annexb (get_dovi_rpu_info x st nal) = m_to_annexb st"
  "m_convert_bitstream (get_dovi_rpu_info x st nal) = m_convert_bitstream st"
  "m_sps_pps_context (get_dovi_rpu_info x st nal) = m_sps_pps_context st"
  "m_start_decode (get_dovi_rpu_info x st nal) = m_start_decode st"
  "dovi (m_hints (get_dovi_rpu_info x st nal)) = dovi (m_hints st)"
  by (simp_all add: get_dovi_rpu_info_def)

lemma ProcessDoViRpu_sel [simp]:
  "m_codec (fst (ProcessDoViRpu x st nal out)) = m_codec st"
  "m_to_annexb (fst (ProcessDoViRpu x st nal out)) = m_to_annexb st"
  "m_convert_bitstream (fst (ProcessDoViRpu x st nal out)) = m_convert_bitstream st"
  "m_sps_pps_context (fst (ProcessDoViRpu x st nal out)) = m_sps_pps_context st"
  "m_start_decode (fst (ProcessDoViRpu x st nal out)) = m_start_decode st"
  by (simp_all add: ProcessDoViRpu_def Let_def split: option.splits prod.splits)

lemma AddDoViRpuNalu_sel [simp]:
  "m_codec (fst (AddDoViRpuNalu x st m out)) = m_codec st"
  "m_to_annexb (fst (AddDoViRpuNalu x st m out)) = m_to_annexb st"
  "m_convert_bitstream (fst (AddDoViRpuNalu x st m out)) = m_convert_bitstream st"
  "m_sps_pps_context (fst (AddDoViRpuNalu x st m out)) = m_sps_pps_context st"
  "m_start_decode (fst (AddDoViRpuNalu x st m out)) = m_start_decode st"
  by (simp_all add: AddDoViRpuNalu_def Let_def)

lemma dispatch_unit_sel [simp]:
  "m_codec (fst (dispatch_unit x st nal t out meta)) = m_codec st"
  "m_to_annexb (fst (dispatch_unit x st nal t out meta)) = m_to_annexb st"
  "m_convert_bitstream (fst (dispatch_unit x st nal t out meta)) = m_convert_bitstream st"
  "m_sps_pps_context (fst (dispatch_unit x st nal t out meta)) = m_sps_pps_context st"
  "m_start_decode (fst (dispatch_unit x st nal t out meta)) = m_start_decode st"
  by (simp_all add: dispatch_unit_def case_prod_unfold Let_def)

lemma note_sps_pps_sel [simp]:
  "length_size (note_sps_pps c t ctx) = length_size ctx"
  "sps_pps_data (note_sps_pps c t ctx) = sps_pps_data ctx"
  "size (note_sps_pps c t ctx) = size ctx"
  "first_idr (note_sps_pps c t ctx) = first_idr ctx"
  by (simp_all add: note_sps_pps_def)

lemma emit_unit_sel [simp]:
  "m_codec (fst (emit_unit x st nal t out meta)) = m_codec st"
  "m_to_annexb (fst (emit_unit x st nal t out meta)) = m_to_annexb st"
  "m_convert_bitstream (fst (emit_unit x st nal t out meta)) = m_convert_bitstream st"
  "m_start_decode (fst (emit_unit x st nal t out meta)) = m_start_decode st"
  "length_size (m_sps_pps_context (fst (emit_unit x st nal t out meta))) = length_size (m_sps_pps_context st)"
  "sps_pps_data (m_sps_pps_context (fst (emit_unit x st nal t out meta))) = sps_pps_data (m_sps_pps_context st)"
  "size (m_sps_pps_context (fst (emit_unit x st nal t out meta))) = size (m_sps_pps_context st)"
  by (simp_all add: emit_unit_def Let_def)

lemma BitstreamConvert_unit_SomeD:
  assumes "BitstreamConvert_unit x st mem n out meta = Some r"
  obtains trig where
    "(if m_start_decode st then Some False
      else start_decode_trigger (m_codec st) (unit_type_of (m_codec st) (hd mem)) mem n) = Some trig"
    "r = emit_unit x
           ((st\<lparr>m_sps_pps_context := note_sps_pps (m_codec st) (unit_type_of (m_codec st) (hd mem))
                                         (m_sps_pps_context st)\<rparr>)
              \<lparr>m_start_decode := m_start_decode st \<or> trig\<rparr>)
           (take n mem) (unit_type_of (m_codec st) (hd mem)) out meta"
proof -
  let ?st1 = "st\<lparr>m_sps_pps_context := note_sps_pps (m_codec st) (unit_type_of (m_codec st) (hd mem))
                                         (m_sps_pps_context st)\<rparr>"
  have e: "(if trig then ?st1\<lparr>m_start_decode := True\<rparr> else ?st1)
           = ?st1\<lparr>m_start_decode := m_start_decode st \<or> trig\<rparr>" for trig
    by simp
  from assms show ?thesis
    unfolding BitstreamConvert_unit_def Let_def e
    by (auto split: option.splits if_splits intro: that)
qed


lemma BitstreamConvert_unit_start_decode:
  assumes "BitstreamConvert_unit x st mem n out meta = Some r"
  shows "m_start_decode (fst r) \<longleftrightarrow>
     m_start_decode st \<or> start_decode_trigger (m_codec st) (unit_type_of (m_codec st) (hd mem)) mem n = Some True"
  using assms by (elim BitstreamConvert_unit_SomeD) (auto split: if_splits)

lemma kept_refl [simp]: "kept st st"
  by (simp add: kept_def)


lemma BitstreamConvert_loop_short:
  "length_size (m_sps_pps_context st) > length buf \<Longrightarrow>
   BitstreamConvert_loop x st buf out meta = Some (False, st, [], meta)"
  by (subst BitstreamConvert_loop.simps) simp

lemma BitstreamConvert_loop_bad:
  assumes "\<not> length_size (m_sps_pps_context st) > length buf"
    and "int (length (drop (length_size (m_sps_pps_context st)) buf))
           < be_size (take (length_size (m_sps_pps_context st)) buf)
         \<or> be_size (take (length_size (m_sps_pps_context st)) buf) \<le> 0"
  shows "BitstreamConvert_loop x st buf out meta = Some (False, st, [], meta)"
  using assms by (subst BitstreamConvert_loop.simps) (simp add: Let_def)

lemma BitstreamConvert_loop_good:
  assumes "\<not> length_size (m_sps_pps_context st) > length buf"
    and "\<not> (int (length (drop (length_size (m_sps_pps_context st)) buf))
           < be_size (take (length_size (m_sps_pps_context st)) buf)
         \<or> be_size (take (length_size (m_sps_pps_context st)) buf) \<le> 0)"
  shows "BitstreamConvert_loop x st buf out meta =
     (case BitstreamConvert_unit x st (drop (length_size (m_sps_pps_context st)) buf)
             (nat (be_size (take (length_size (m_sps_pps_context st)) buf))) out meta of
        None \<Rightarrow> None
      | Some (st', out', meta') \<Rightarrow>
          if drop (nat (be_size (take (length_size (m_sps_pps_context st)) buf)))
               (drop (length_size (m_sps_pps_context st)) buf) \<noteq> []
          then BitstreamConvert_loop x st'
                 (drop (nat (be_size (take (length_size (m_sps_pps_context st)) buf)))
                    (drop (length_size (m_sps_pps_context st)) buf)) out' meta'
          else Some (True, st', out', meta'))"
  using assms by (subst BitstreamConvert_loop.simps) (simp add: Let_def)


lemma BS_WB32_1 [simp]: "BS_WB32 1 = [0, 0, 0, 1]"
  by (simp add: BS_WB32_def drop_bit_eq_div)

text \<open>
  Claim C4, as amended. The seven-argument overload of \<^verbatim>\<open>BitstreamAllocAndCopy\<close> (the
  single-track path) writes, after the prologue if one is given, the start code
  \<open>00 00 00 01\<close> when the output buffer is empty or the NAL type is 62 and
  \<open>00 00 01\<close> otherwise, also for type 63, for which it has no case. The
  five-argument overload (the dual-track path) writes the header
  \<open>00 00 01 7E 01\<close> for type 63, also into an empty buffer, \<open>00 00 00 01\<close> when
  the buffer is empty or the type is 62, and \<open>00 00 01\<close> otherwise.
\<close>

theorem BitstreamAllocAndCopy_framing:
  "BitstreamAllocAndCopy poutbuf sps_pps inp t =
     poutbuf @ sps_pps @ (if poutbuf = [] \<or> t = HEVC_NAL_UNSPEC62 then [0, 0, 0, 1] else [0, 0, 1]) @ inp \<and>
   BitstreamAllocAndCopy32 poutbuf inp t =
     poutbuf @ (if t = HEVC_NAL_UNSPEC63 then [0, 0, 1, 0x7E, 1]
                else if poutbuf = [] \<or> t = HEVC_NAL_UNSPEC62 then [0, 0, 0, 1] else [0, 0, 1]) @ inp"
  by (simp add: BitstreamAllocAndCopy_def BitstreamAllocAndCopy32_def Let_def
      HEVC_NAL_UNSPEC62_def HEVC_NAL_UNSPEC63_def)

theorem BitstreamAllocAndCopy_framing_witness:
  "BitstreamAllocAndCopy [] [0x67] [0x65, 0x88] 5 = [0x67, 0, 0, 0, 1, 0x65, 0x88] \<and>
   BitstreamAllocAndCopy [0x09] [] [0x7C, 0x01] HEVC_NAL_UNSPEC62 = [0x09, 0, 0, 0, 1, 0x7C, 0x01] \<and>
   BitstreamAllocAndCopy [0x09] [] [0x41] 1 = [0x09, 0, 0, 1, 0x41] \<and>
   BitstreamAllocAndCopy32 [] [0x41] HEVC_NAL_UNSPEC63 = [0, 0, 1, 0x7E, 1, 0x41] \<and>
   BitstreamAllocAndCopy32 [0x09] [0x41] 1 = [0x09, 0, 0, 1, 0x41]"
  using BitstreamAllocAndCopy_framing [of "[]" "[0x67]" "[0x65, 0x88]" 5]
    BitstreamAllocAndCopy_framing [of "[0x09]" "[]" "[0x7C, 0x01]" HEVC_NAL_UNSPEC62]
    BitstreamAllocAndCopy_framing [of "[0x09]" "[]" "[0x41]" 1]
    BitstreamAllocAndCopy_framing [of "[]" _ "[0x41]" HEVC_NAL_UNSPEC63]
    BitstreamAllocAndCopy_framing [of "[0x09]" _ "[0x41]" 1]
  by (simp add: HEVC_NAL_UNSPEC62_def HEVC_NAL_UNSPEC63_def)

text \<open>
  The claim as first stated fails in the seven-argument overload: a NAL of type 63 is
  framed by three bytes, or by four in an empty buffer, not by the five-byte header.
\<close>

theorem BitstreamAllocAndCopy_framing_counterexample:
  "BitstreamAllocAndCopy [0x09] [] [0x7E, 0x01, 0xAA] HEVC_NAL_UNSPEC63 = [0x09, 0, 0, 1, 0x7E, 0x01, 0xAA] \<and>
   BitstreamAllocAndCopy [] [] [0x7E, 0x01, 0xAA] HEVC_NAL_UNSPEC63 = [0, 0, 0, 1, 0x7E, 0x01, 0xAA]"
  by (simp add: BitstreamAllocAndCopy_def Let_def HEVC_NAL_UNSPEC62_def HEVC_NAL_UNSPEC63_def)

lemma Convert_dual_None:
  "pData_bl = None \<or> pData_el = None \<Longrightarrow>
   Convert_dual x st pData_bl pData_el =
     (True, st\<lparr>m_convertBuffer := None, m_inputSize := 0, m_convertSize := 0,
               m_inputBuffer := None, m_first_frame := False\<rparr>)"
  by (cases pData_bl; cases pData_el; simp add: Convert_dual_def)

text \<open>
  Claim C10. When either packet pointer of the dual-track \<^verbatim>\<open>Convert\<close> is \<^verbatim>\<open>NULL\<close> the
  call returns true, leaves no output (the convert buffer is \<^verbatim>\<open>NULL\<close>, the buffer and
  size reported are \<^verbatim>\<open>NULL\<close> and 0) and still clears \<^verbatim>\<open>m_first_frame\<close>.
\<close>

theorem Convert_dual_null:
  "pData_bl = None \<or> pData_el = None \<Longrightarrow>
   fst (Convert_dual x st pData_bl pData_el) = True \<and>
   m_convertBuffer (snd (Convert_dual x st pData_bl pData_el)) = None \<and>
   m_convertSize (snd (Convert_dual x st pData_bl pData_el)) = 0 \<and>
   GetConvertBuffer (snd (Convert_dual x st pData_bl pData_el)) = None \<and>
   GetConvertSize (snd (Convert_dual x st pData_bl pData_el)) = 0 \<and>
   m_first_frame (snd (Convert_dual x st pData_bl pData_el)) = False"
  by (simp add: Convert_dual_None GetConvertBuffer_def GetConvertSize_def)

theorem Convert_dual_null_witness:
  "fst (Convert_dual ext0 (new_conv (hints0 AV_CODEC_ID_HEVC None)) None (Some [0, 0, 0, 2, 0x7C, 0x01])) = True \<and>
   GetConvertBuffer (snd (Convert_dual ext0 (new_conv (hints0 AV_CODEC_ID_HEVC None)) None (Some [0, 0, 0, 2, 0x7C, 0x01]))) = None \<and>
   GetConvertSize (snd (Convert_dual ext0 (new_conv (hints0 AV_CODEC_ID_HEVC None)) None (Some [0, 0, 0, 2, 0x7C, 0x01]))) = 0 \<and>
   m_first_frame (new_conv (hints0 AV_CODEC_ID_HEVC None)) = True \<and>
   m_first_frame (snd (Convert_dual ext0 (new_conv (hints0 AV_CODEC_ID_HEVC None)) None (Some [0, 0, 0, 2, 0x7C, 0x01]))) = False"
  using Convert_dual_null [of None "Some [0, 0, 0, 2, 0x7C, 0x01]" ext0 "new_conv (hints0 AV_CODEC_ID_HEVC None)"]
  by (simp add: new_conv_def)

lemma Open_missing:
  assumes "extradata (m_hints st) = None"
  shows "map_option fst (Open x st to_annexb) = Some False"
  using assms by (cases "codec (m_hints st)") (simp_all add: Open_def)

lemma Open_H264_short:
  assumes "codec (m_hints st) = AV_CODEC_ID_H264" "extradata (m_hints st) = Some ex" "length ex < 7"
  shows "map_option fst (Open x st to_annexb) = Some False"
  using assms by (simp add: Open_def)

lemma Open_HEVC_short:
  assumes "codec (m_hints st) = AV_CODEC_ID_HEVC" "extradata (m_hints st) = Some ex" "length ex < 23"
  shows "map_option fst (Open x st to_annexb) = Some False"
  using assms by (simp add: Open_def)

lemma Open_H264_annexb:
  assumes "codec (m_hints st) = AV_CODEC_ID_H264" "extradata (m_hints st) = Some ex" "7 \<le> length ex"
  shows "map_option fst (Open x st True) =
           (if ex ! 0 = 1
            then map_option (\<lambda>_. True)
                   (BitstreamConvertInitAVC x
                      (st\<lparr>m_to_annexb := True, m_codec := AV_CODEC_ID_H264,
                          m_intial_hdrType := hdrType (m_hints st), m_extraData := Some ex\<rparr>) ex)
            else Some False)"
  using assms by (auto simp: Open_def Let_def split: option.splits)

lemma Open_HEVC_annexb:
  assumes "codec (m_hints st) = AV_CODEC_ID_HEVC" "extradata (m_hints st) = Some ex" "23 \<le> length ex"
  shows "map_option fst (Open x st True) =
           (if ex ! 0 \<noteq> 0 \<or> ex ! 1 \<noteq> 0 \<or> ex ! 2 > 1
            then map_option (\<lambda>_. True)
                   (BitstreamConvertInitHEVC x
                      (st\<lparr>m_to_annexb := True, m_codec := AV_CODEC_ID_HEVC,
                          m_intial_hdrType := hdrType (m_hints st), m_extraData := Some ex\<rparr>) ex)
            else Some False)"
  using assms by (auto simp: Open_def Let_def split: option.splits)

lemma Open_H264_reverse:
  assumes "codec (m_hints st) = AV_CODEC_ID_H264" "extradata (m_hints st) = Some ex" "7 \<le> length ex"
    "ex ! 0 = 1"
  shows "map_option fst (Open x st False) = Some True"
  using assms by (auto simp: Open_def Let_def)

lemma Open_HEVC_reverse:
  assumes "codec (m_hints st) = AV_CODEC_ID_HEVC" "extradata (m_hints st) = Some ex" "23 \<le> length ex"
    "ex ! 0 = 1"
  shows "map_option fst (Open x st False) = Some True"
  using assms by (auto simp: Open_def Let_def)

lemma map_option_const_ne: "map_option (\<lambda>_. True) v \<noteq> Some False"
  "Some False \<noteq> map_option (\<lambda>_. True) v"
  by (cases v; simp)+

text \<open>
  Claim C8, as amended. \<^verbatim>\<open>Open\<close> returns false whenever the configuration record is
  missing or shorter than 7 bytes for AVC or 23 bytes for HEVC. In the
  \<^verbatim>\<open>to_annexb\<close> direction it returns false for AVC whenever the version byte is not 1,
  and for HEVC exactly when the record starts with \<open>00 00 00\<close> or \<open>00 00 01\<close>: any
  other start is accepted, a version byte other than 1 included. For a record of
  sufficient length whose version byte is 1, \<^verbatim>\<open>Open\<close> returns true in the reverse
  direction and never returns false in the \<^verbatim>\<open>to_annexb\<close> direction (it returns true
  unless the parse of the record reads outside the record).
\<close>

theorem Open_result:
  "(codec (m_hints st) = AV_CODEC_ID_H264 \<and>
      (case extradata (m_hints st) of None \<Rightarrow> True | Some ex \<Rightarrow> length ex < 7)
    \<longrightarrow> map_option fst (Open x st to_annexb) = Some False) \<and>
   (codec (m_hints st) = AV_CODEC_ID_HEVC \<and>
      (case extradata (m_hints st) of None \<Rightarrow> True | Some ex \<Rightarrow> length ex < 23)
    \<longrightarrow> map_option fst (Open x st to_annexb) = Some False) \<and>
   (codec (m_hints st) = AV_CODEC_ID_H264 \<and> extradata (m_hints st) = Some ex \<and> 7 \<le> length ex
      \<and> ex ! 0 \<noteq> 1
    \<longrightarrow> map_option fst (Open x st True) = Some False) \<and>
   (codec (m_hints st) = AV_CODEC_ID_HEVC \<and> extradata (m_hints st) = Some ex \<and> 23 \<le> length ex
    \<longrightarrow> (map_option fst (Open x st True) = Some False
           \<longleftrightarrow> ex ! 0 = 0 \<and> ex ! 1 = 0 \<and> ex ! 2 \<le> 1)) \<and>
   ((codec (m_hints st) = AV_CODEC_ID_H264 \<and> 7 \<le> length ex
       \<or> codec (m_hints st) = AV_CODEC_ID_HEVC \<and> 23 \<le> length ex)
      \<and> extradata (m_hints st) = Some ex \<and> ex ! 0 = 1
    \<longrightarrow> map_option fst (Open x st False) = Some True
        \<and> map_option fst (Open x st True) \<noteq> Some False)"
proof (intro conjI impI)
  assume "codec (m_hints st) = AV_CODEC_ID_H264 \<and>
      (case extradata (m_hints st) of None \<Rightarrow> True | Some ex \<Rightarrow> length ex < 7)"
  then show "map_option fst (Open x st to_annexb) = Some False"
    by (cases "extradata (m_hints st)") (simp_all add: Open_missing Open_H264_short)
next
  assume "codec (m_hints st) = AV_CODEC_ID_HEVC \<and>
      (case extradata (m_hints st) of None \<Rightarrow> True | Some ex \<Rightarrow> length ex < 23)"
  then show "map_option fst (Open x st to_annexb) = Some False"
    by (cases "extradata (m_hints st)") (simp_all add: Open_missing Open_HEVC_short)
next
  assume "codec (m_hints st) = AV_CODEC_ID_H264 \<and> extradata (m_hints st) = Some ex \<and> 7 \<le> length ex
      \<and> ex ! 0 \<noteq> 1"
  then show "map_option fst (Open x st True) = Some False"
    by (simp add: Open_H264_annexb)
next
  assume a: "codec (m_hints st) = AV_CODEC_ID_HEVC \<and> extradata (m_hints st) = Some ex \<and> 23 \<le> length ex"
  then have e: "map_option fst (Open x st True) =
           (if ex ! 0 \<noteq> 0 \<or> ex ! 1 \<noteq> 0 \<or> ex ! 2 > 1
            then map_option (\<lambda>_. True)
                   (BitstreamConvertInitHEVC x
                      (st\<lparr>m_to_annexb := True, m_codec := AV_CODEC_ID_HEVC,
                          m_intial_hdrType := hdrType (m_hints st), m_extraData := Some ex\<rparr>) ex)
            else Some False)"
    by (intro Open_HEVC_annexb) simp_all
  show "map_option fst (Open x st True) = Some False \<longleftrightarrow> ex ! 0 = 0 \<and> ex ! 1 = 0 \<and> ex ! 2 \<le> 1"
    unfolding e by (auto simp: map_option_const_ne not_le)
next
  assume a: "(codec (m_hints st) = AV_CODEC_ID_H264 \<and> 7 \<le> length ex
       \<or> codec (m_hints st) = AV_CODEC_ID_HEVC \<and> 23 \<le> length ex)
      \<and> extradata (m_hints st) = Some ex \<and> ex ! 0 = 1"
  then show "map_option fst (Open x st False) = Some True"
    using Open_H264_reverse [of st ex x] Open_HEVC_reverse [of st ex x] by blast
  from a show "map_option fst (Open x st True) \<noteq> Some False"
    using Open_H264_annexb [of st ex x] Open_HEVC_annexb [of st ex x]
    by (auto simp: map_option_const_ne)
qed

lemma avc_units_avcc0:
  "avc_units avcc0 64 6 1 0 0 0 [] =
     Some (Some ([0, 0, 0, 1, 0x67, 0x64, 0x00, 0x28, 0, 0, 0, 1, 0x68, 0xEE], 14))"
  by (simp add: avc_units.simps avc_pps_step_def rb16_def avcc0_def INT_MAX_def Let_def)

lemma Open_avcc0_state: "map_option (\<lambda>(r, s). (r, m_convert_bitstream s, m_sps_pps_context s))
     (Open ext0 (new_conv (hints0 AV_CODEC_ID_H264 (Some avcc0))) True)
   = Some (True, True, \<lparr>length_size = 4, first_idr = 1, idr_sps_pps_seen = 0,
        sps_pps_data = Some [0, 0, 0, 1, 0x67, 0x64, 0x00, 0x28, 0, 0, 0, 1, 0x68, 0xEE], size = 14\<rparr>)"
proof -
  have a: "avcc0 ! 0 = 1" "avcc0 ! 4 = 0xFF" "avcc0 ! 5 = 0xE1" "length avcc0 = 17"
    by (simp_all add: avcc0_def)
  show ?thesis
    by (simp add: Open_def new_conv_def hints0_def BitstreamConvertInitAVC_def Let_def a
        avc_units_avcc0 ext0_def)
qed

lemma Open_avcc0:
  "map_option fst (Open ext0 (new_conv (hints0 AV_CODEC_ID_H264 (Some avcc0))) True) = Some True"
proof -
  have "map_option fst (Open ext0 (new_conv (hints0 AV_CODEC_ID_H264 (Some avcc0))) True)
      = map_option fst (map_option (\<lambda>(r, s). (r, m_convert_bitstream s, m_sps_pps_context s))
     (Open ext0 (new_conv (hints0 AV_CODEC_ID_H264 (Some avcc0))) True))"
    by (simp add: option.map_comp comp_def case_prod_unfold)
  then show ?thesis unfolding Open_avcc0_state by simp
qed

theorem Open_result_witness:
  "7 \<le> length avcc0 \<and> avcc0 ! 0 = 1 \<and>
   map_option fst (Open ext0 (new_conv (hints0 AV_CODEC_ID_H264 (Some avcc0))) False) = Some True \<and>
   map_option fst (Open ext0 (new_conv (hints0 AV_CODEC_ID_H264 (Some avcc0))) True) = Some True \<and>
   map_option fst (Open ext0 (new_conv (hints0 AV_CODEC_ID_H264 (Some [1, 2, 3]))) True) = Some False \<and>
   map_option fst (Open ext0 (new_conv (hints0 AV_CODEC_ID_H264 (Some (0 # tl avcc0)))) True) = Some False \<and>
   map_option fst (Open ext0 (new_conv (hints0 AV_CODEC_ID_HEVC None)) True) = Some False \<and>
   map_option fst (Open ext0 (new_conv (hints0 AV_CODEC_ID_HEVC (Some (0 # 0 # 1 # replicate 20 0)))) True)
     = Some False"
  using Open_result [of "new_conv (hints0 AV_CODEC_ID_H264 (Some avcc0))" ext0 False avcc0]
    Open_result [of "new_conv (hints0 AV_CODEC_ID_H264 (Some [1, 2, 3]))" ext0 True]
    Open_result [of "new_conv (hints0 AV_CODEC_ID_H264 (Some (0 # tl avcc0)))" ext0 True "0 # tl avcc0"]
    Open_result [of "new_conv (hints0 AV_CODEC_ID_HEVC None)" ext0 True]
    Open_result [of "new_conv (hints0 AV_CODEC_ID_HEVC (Some (0 # 0 # 1 # replicate 20 0)))" ext0 True
      "0 # 0 # 1 # replicate 20 0"]
    Open_avcc0
  by (simp add: new_conv_def hints0_def avcc0_def)

text \<open>
  The claim as first stated fails for HEVC: a record of 23 bytes whose version byte is
  0 and whose second byte is not 0 is accepted in the \<^verbatim>\<open>to_annexb\<close> direction.
\<close>

theorem Open_result_counterexample:
  "hvcc0 0 ! 0 \<noteq> 1 \<and> 23 \<le> length (hvcc0 0) \<and>
   map_option fst (Open ext0 (new_conv (hints0 AV_CODEC_ID_HEVC (Some (hvcc0 0)))) True) = Some True"
proof -
  have a: "hvcc0 0 ! 0 = 0" "hvcc0 0 ! Suc 0 = 1" "hvcc0 0 ! 22 = 0" "length (hvcc0 0) = 23"
    by (simp_all add: hvcc0_def nth_append)
  show ?thesis
    by (simp add: Open_def new_conv_def hints0_def BitstreamConvertInitHEVC_def Let_def a ext0_def)
qed

lemma dual_nal_eval:
  "dual_nal_size [0, 0, 0, 2, 0x48, 0x01] = 2"
  "dual_nal_type [0, 0, 0, 2, 0x48, 0x01] = HEVC_NAL_EOS_NUT"
  "dual_nal_size [0, 0, 0, 2, 0x14, 0x01] = 2"
  "dual_nal_type [0, 0, 0, 2, 0x14, 0x01] = AVC_NAL_END_SEQUENCE"
  "dual_nal_size [0, 0, 0, 3, 0x7C, 0x01, 0xAA] = 3"
  "dual_nal_type [0, 0, 0, 3, 0x7C, 0x01, 0xAA] = HEVC_NAL_UNSPEC62"
  by (simp_all add: dual_nal_size_def dual_nal_type_def BS_RB32_def nal_type_defs)

text \<open>
  Claim C9 does not hold of the code. The base-layer loop takes the unit type by the
  HEVC rule \<^verbatim>\<open>(buf[0] >> 1) & 0x3f\<close> and compares it with \<^verbatim>\<open>AVC_NAL_END_SEQUENCE\<close>
  (10), so the HEVC end-of-sequence NAL (type 36, first byte \<open>0x48\<close>) is copied where
  it stands, before the enhancement-layer NALs, and what is deferred to the end is a
  NAL of HEVC type 10 (first byte \<open>0x14\<close>).
\<close>

theorem Convert_dual_eos_not_deferred:
  "m_convertBuffer (snd (Convert_dual ext0 ((new_conv (hints0 AV_CODEC_ID_HEVC None))\<lparr>m_convert_bitstream := True\<rparr>)
      (Some [0, 0, 0, 2, 0x48, 0x01]) (Some [0, 0, 0, 3, 0x7C, 0x01, 0xAA])))
   = Some [0, 0, 0, 1, 0x48, 0x01, 0, 0, 0, 1, 0x7C, 0x01, 0xAA] \<and>
   m_convertBuffer (snd (Convert_dual ext0 ((new_conv (hints0 AV_CODEC_ID_HEVC None))\<lparr>m_convert_bitstream := True\<rparr>)
      (Some [0, 0, 0, 2, 0x14, 0x01]) (Some [0, 0, 0, 3, 0x7C, 0x01, 0xAA])))
   = Some [0, 0, 0, 1, 0x7C, 0x01, 0xAA, 0, 0, 1, 0x14, 0x01]"
  by (simp add: Convert_dual_def new_conv_def hints0_def ext0_def dual_bl_loop.simps dual_el_loop.simps
      dual_nal_eval nal_type_defs ProcessDoViRpu_def get_dovi_rpu_info_def
      BitstreamAllocAndCopy_def BitstreamAllocAndCopy32_def Let_def)

subsection \<open>A conversion as a whole\<close>








lemma Apply_inputs [simp]:
  "m_inputBuffer (ApplyMasteringDisplayColourVolume st v) = m_inputBuffer st"
  "m_inputSize (ApplyMasteringDisplayColourVolume st v) = m_inputSize st"
  "m_inputBuffer (ApplyContentLightLevel st w) = m_inputBuffer st"
  "m_inputSize (ApplyContentLightLevel st w) = m_inputSize st"
  by (simp_all add: ApplyMasteringDisplayColourVolume_def ApplyContentLightLevel_def Let_def)

lemma ProcessSeiPrefix_inputs [simp]:
  "m_inputBuffer (fst (ProcessSeiPrefix x st nal out meta)) = m_inputBuffer st"
  "m_inputSize (fst (ProcessSeiPrefix x st nal out meta)) = m_inputSize st"
  by (simp_all add: ProcessSeiPrefix_def Let_def split: option.splits)

lemma get_dovi_rpu_info_inputs [simp]:
  "m_inputBuffer (get_dovi_rpu_info x st nal) = m_inputBuffer st"
  "m_inputSize (get_dovi_rpu_info x st nal) = m_inputSize st"
  by (simp_all add: get_dovi_rpu_info_def)

lemma ProcessDoViRpu_inputs [simp]:
  "m_inputBuffer (fst (ProcessDoViRpu x st nal out)) = m_inputBuffer st"
  "m_inputSize (fst (ProcessDoViRpu x st nal out)) = m_inputSize st"
  by (simp_all add: ProcessDoViRpu_def Let_def split: option.splits prod.splits)

lemma AddDoViRpuNalu_inputs [simp]:
  "m_inputBuffer (fst (AddDoViRpuNalu x st m out)) = m_inputBuffer st"
  "m_inputSize (fst (AddDoViRpuNalu x st m out)) = m_inputSize st"
  by (simp_all add: AddDoViRpuNalu_def Let_def)

lemma dispatch_unit_inputs [simp]:
  "m_inputBuffer (fst (dispatch_unit x st nal t out meta)) = m_inputBuffer st"
  "m_inputSize (fst (dispatch_unit x st nal t out meta)) = m_inputSize st"
  by (simp_all add: dispatch_unit_def case_prod_unfold Let_def)

lemma emit_unit_inputs [simp]:
  "m_inputBuffer (fst (emit_unit x st nal t out meta)) = m_inputBuffer st"
  "m_inputSize (fst (emit_unit x st nal t out meta)) = m_inputSize st"
  by (simp_all add: emit_unit_def Let_def)







lemma ProcessSeiPrefix_conv_hdr [simp]:
  "m_convert_Hdr10Plus (fst (ProcessSeiPrefix x st nal out meta)) = m_convert_Hdr10Plus st"
  by (simp add: ProcessSeiPrefix_def Let_def split: option.splits)













lemma BitstreamConvert_unit_total:
  "m_start_decode st \<Longrightarrow> BitstreamConvert_unit x st mem n out meta \<noteq> None"
  by (simp add: BitstreamConvert_unit_def Let_def)

lemma BitstreamConvert_loop_total:
  "m_start_decode st \<Longrightarrow> BitstreamConvert_loop x st buf out meta \<noteq> None"
proof (induction "length buf" arbitrary: st buf out meta rule: less_induct)
  case less
  let ?l = "length_size (m_sps_pps_context st)"
  let ?n = "be_size (take ?l buf)"
  let ?mem = "drop ?l buf"
  show ?case
  proof (cases "?l > length buf \<or> int (length ?mem) < ?n \<or> ?n \<le> 0")
    case True
    then have "BitstreamConvert_loop x st buf out meta = Some (False, st, [], meta)"
      using BitstreamConvert_loop_short [where st = st and buf = buf and x = x and out = out and meta = meta]
        BitstreamConvert_loop_bad [where st = st and buf = buf and x = x and out = out and meta = meta]
      by (cases "?l > length buf") auto
    then show ?thesis by simp
  next
    case False
    then have f: "\<not> ?l > length buf" "\<not> (int (length ?mem) < ?n \<or> ?n \<le> 0)" by blast+
    note eq = BitstreamConvert_loop_good [OF f, of x out meta]
    from BitstreamConvert_unit_total [OF less.prems, of x ?mem "nat ?n" out meta] obtain r where
      u: "BitstreamConvert_unit x st ?mem (nat ?n) out meta = Some r"
      by blast
    obtain st1 out1 meta1 where r: "r = (st1, out1, meta1)" by (cases r)
    from BitstreamConvert_unit_start_decode [OF u] less.prems r
    have s1: "m_start_decode st1" by simp
    have "0 < nat ?n" "nat ?n \<le> length ?mem" using f by auto
    then have lt: "length (drop (nat ?n) ?mem) < length buf"
      by (simp del: drop_drop)
    from less.hyps [OF lt s1, of out1 meta1] eq u r show ?thesis
      by (cases "drop (nat ?n) ?mem \<noteq> []") (simp_all del: drop_drop)
  qed
qed

lemma Convert_total:
  assumes "m_start_decode st" "m_to_annexb st" "m_convert_bitstream st"
  shows "Convert x st (Some pkt) \<noteq> None"
proof -
  let ?st0 = "st\<lparr>m_convertBuffer := None, m_inputSize := 0, m_convertSize := 0,
                   m_inputBuffer := None\<rparr>"
  have "m_start_decode ?st0" using assms(1) by simp
  from BitstreamConvert_loop_total [OF this, of x pkt "[]" None]
  obtain ok st1 out1 meta1 where
    "BitstreamConvert_loop x ?st0 pkt [] None = Some (ok, st1, out1, meta1)"
    by (cases "BitstreamConvert_loop x ?st0 pkt [] None") auto
  then have "BitstreamConvert x ?st0 pkt \<noteq> None"
    by (cases "m_codec st"; cases ok) (simp_all add: BitstreamConvert_def case_prod_unfold Let_def)
  with assms(2,3) show ?thesis
    by (auto simp: Convert_def Let_def split: option.splits)
qed

subsection \<open>The SEI scan\<close>














subsection \<open>The decode-start latch\<close>

lemma Open_opened0:
  "Open ext0 (new_conv (hints0 AV_CODEC_ID_H264 (Some avcc0))) True = Some (True, opened0)"
proof -
  have a: "avcc0 ! 0 = 1" "avcc0 ! 4 = 0xFF" "avcc0 ! 5 = 0xE1" "length avcc0 = 17"
    by (simp_all add: avcc0_def)
  show ?thesis
    by (simp add: Open_def new_conv_def hints0_def BitstreamConvertInitAVC_def Let_def a
        avc_units_avcc0 ext0_def opened0_def)
qed

lemma opened0_sel:
  "m_codec opened0 = AV_CODEC_ID_H264" "m_to_annexb opened0" "m_convert_bitstream opened0"
  "length_size (m_sps_pps_context opened0) = 4" "m_start_decode opened0"
  by (simp_all add: opened0_def new_conv_def hints0_def)













subsection \<open>The SPS/PPS prologue\<close>

lemma IsIDR_types:
  assumes "IsIDR c t"
  shows "t \<noteq> nal_sps c" "t \<noteq> nal_pps c" "t \<noteq> HEVC_NAL_SEI_PREFIX" "t \<noteq> HEVC_NAL_UNSPEC62"
    "t \<noteq> HEVC_NAL_UNSPEC63"
  using assms
  by (cases c; auto simp: IsIDR_def nal_sps_def nal_pps_def nal_type_defs)+

lemma IsSlice_types:
  assumes "IsSlice c t"
  shows "t \<noteq> nal_sps c" "t \<noteq> nal_pps c"
  using assms
  by (cases c; auto simp: IsSlice_def nal_sps_def nal_pps_def nal_type_defs)+

lemma sps_pps_types:
  assumes "t = nal_sps c \<or> t = nal_pps c"
  shows "\<not> IsIDR c t" "\<not> IsSlice c t"
  using assms IsIDR_types(1,2) [of c t] IsSlice_types [of c t] by blast+

lemma dispatch_unit_plain:
  "t \<noteq> HEVC_NAL_SEI_PREFIX \<Longrightarrow> t \<noteq> HEVC_NAL_UNSPEC62 \<Longrightarrow> t \<noteq> HEVC_NAL_UNSPEC63 \<Longrightarrow>
   dispatch_unit x st nal t out meta =
     (st, out @ (if out = [] then [0, 0, 0, 1] else [0, 0, 1]) @ nal, meta)"
  by (simp add: dispatch_unit_def) (simp add: BitstreamAllocAndCopy_def Let_def)

text \<open>
  Claim C1, as amended. For every NAL that the conversion loop reaches: an IDR NAL is
  written with the SPS/PPS prologue immediately before its start code when, at that
  NAL, \<^verbatim>\<open>first_idr\<close> is set and \<^verbatim>\<open>idr_sps_pps_seen\<close> is clear, and without the prologue in
  every other state of the two flags. The prologue clears \<^verbatim>\<open>first_idr\<close>; a slice NAL met
  with \<^verbatim>\<open>first_idr\<close> clear sets \<^verbatim>\<open>first_idr\<close> to 1 and \<^verbatim>\<open>idr_sps_pps_seen\<close> to 0; an SPS or
  PPS NAL met with \<^verbatim>\<open>first_idr\<close> set sets \<^verbatim>\<open>idr_sps_pps_seen\<close>; no other NAL changes the
  flags, which are part of the converter and pass from one call to the next.
\<close>

theorem BitstreamConvert_unit_prologue:
  assumes "BitstreamConvert_unit x st mem n out meta = Some (st', out', meta')"
  shows "let c = m_codec st; t = unit_type_of c (hd mem);
             ctx = m_sps_pps_context st; ctx' = m_sps_pps_context st';
             prologue = (case sps_pps_data ctx of None \<Rightarrow> [] | Some d \<Rightarrow> d);
             start_code = (if out = [] then [0, 0, 0, 1] else [0, 0, 1])
         in (IsIDR c t \<longrightarrow>
               (if first_idr ctx \<noteq> 0 \<and> idr_sps_pps_seen ctx = 0
                then out' = out @ prologue @ start_code @ take n mem
                else out' = out @ start_code @ take n mem)) \<and>
            (first_idr ctx', idr_sps_pps_seen ctx') =
              (if IsIDR c t \<and> first_idr ctx \<noteq> 0 \<and> idr_sps_pps_seen ctx = 0 then (0, 0)
               else if IsSlice c t \<and> first_idr ctx = 0 then (1, 0)
               else if (t = nal_sps c \<or> t = nal_pps c) \<and> first_idr ctx \<noteq> 0 then (first_idr ctx, 1)
               else (first_idr ctx, idr_sps_pps_seen ctx))"
proof -
  let ?c = "m_codec st"
  let ?t = "unit_type_of ?c (hd mem)"
  let ?ctx = "m_sps_pps_context st"
  from assms obtain trig where
    r: "(st', out', meta') = emit_unit x
           ((st\<lparr>m_sps_pps_context := note_sps_pps ?c ?t ?ctx\<rparr>)
              \<lparr>m_start_decode := m_start_decode st \<or> trig\<rparr>)
           (take n mem) ?t out meta"
    by (elim BitstreamConvert_unit_SomeD)
  then have e: "st' = fst (emit_unit x
           ((st\<lparr>m_sps_pps_context := note_sps_pps ?c ?t ?ctx\<rparr>)
              \<lparr>m_start_decode := m_start_decode st \<or> trig\<rparr>)
           (take n mem) ?t out meta)"
    by (metis fst_conv)
  show ?thesis
  proof (cases "IsIDR ?c ?t")
    case True
    note ty = IsIDR_types [OF True]
    have n: "note_sps_pps ?c ?t ?ctx = ?ctx" using ty by (simp add: note_sps_pps_def)
    show ?thesis
    proof (cases "first_idr ?ctx \<noteq> 0 \<and> idr_sps_pps_seen ?ctx = 0")
      case a: True
      with r True n ty show ?thesis
        by (simp add: emit_unit_def Let_def BitstreamAllocAndCopy_def)
    next
      case False
      with r True n ty show ?thesis
        by (auto simp: emit_unit_def Let_def dispatch_unit_plain)
    qed
  next
    case False
    show ?thesis
    proof (cases "?t = nal_sps ?c \<or> ?t = nal_pps ?c")
      case True
      note ty = sps_pps_types [OF True]
      have "m_sps_pps_context st' = note_sps_pps ?c ?t ?ctx"
        unfolding e using ty by (simp add: emit_unit_def Let_def)
      with True ty show ?thesis
        by (auto simp: Let_def note_sps_pps_def)
    next
      case nsp: False
      then have n: "note_sps_pps ?c ?t ?ctx = ?ctx" by (simp add: note_sps_pps_def)
      have "m_sps_pps_context st' =
          (if first_idr ?ctx = 0 \<and> IsSlice ?c ?t
           then ?ctx\<lparr>first_idr := 1, idr_sps_pps_seen := 0\<rparr> else ?ctx)"
        unfolding e using False n by (simp add: emit_unit_def Let_def)
      with False nsp show ?thesis
        by (auto simp: Let_def)
    qed
  qed
qed


lemma opened0_ctx:
  "m_sps_pps_context opened0 = \<lparr>length_size = 4, first_idr = 1, idr_sps_pps_seen = 0,
          sps_pps_data = Some [0, 0, 0, 1, 0x67, 0x64, 0x00, 0x28, 0, 0, 0, 1, 0x68, 0xEE],
          size = 14\<rparr>"
  by (simp add: opened0_def)

lemma unit_type_idr: "unit_type_of AV_CODEC_ID_H264 0x65 = AVC_NAL_IDR_SLICE"
  by (simp add: unit_type_of_def nal_type_defs)

text \<open>The first IDR NAL after \<^verbatim>\<open>Open\<close> on the H.264 record.\<close>

theorem BitstreamConvert_unit_prologue_witness:
  "IsIDR (m_codec opened0) (unit_type_of (m_codec opened0) (hd [0x65, 0x88])) \<and>
   first_idr (m_sps_pps_context opened0) \<noteq> 0 \<and> idr_sps_pps_seen (m_sps_pps_context opened0) = 0 \<and>
   (\<exists>st' out' meta'.
      BitstreamConvert_unit ext0 opened0 [0x65, 0x88] 2 [] None = Some (st', out', meta') \<and>
      out' = [0, 0, 0, 1, 0x67, 0x64, 0x00, 0x28, 0, 0, 0, 1, 0x68, 0xEE] @ [0, 0, 0, 1] @ [0x65, 0x88] \<and>
      first_idr (m_sps_pps_context st') = 0 \<and> idr_sps_pps_seen (m_sps_pps_context st') = 0)"
proof -
  have i: "IsIDR (m_codec opened0) (unit_type_of (m_codec opened0) (hd [0x65, 0x88]))"
    by (simp add: opened0_sel unit_type_idr IsIDR_def)
  have "BitstreamConvert_unit ext0 opened0 [0x65, 0x88] 2 [] None \<noteq> None"
    by (simp add: BitstreamConvert_unit_def opened0_sel Let_def)
  then obtain st' out' meta' where
    u: "BitstreamConvert_unit ext0 opened0 [0x65, 0x88] 2 [] None = Some (st', out', meta')"
    by (cases "BitstreamConvert_unit ext0 opened0 [0x65, 0x88] 2 [] None") auto
  from BitstreamConvert_unit_prologue [OF u] i
  have "out' = [0, 0, 0, 1, 0x67, 0x64, 0x00, 0x28, 0, 0, 0, 1, 0x68, 0xEE] @ [0, 0, 0, 1] @ [0x65, 0x88] \<and>
      first_idr (m_sps_pps_context st') = 0 \<and> idr_sps_pps_seen (m_sps_pps_context st') = 0"
    by (simp add: Let_def opened0_ctx)
  with u i show ?thesis by (simp add: opened0_ctx)
qed

text \<open>
  The claim as first stated fails on two IDR access units in a row, neither with an
  SPS or a PPS: the first is written behind the prologue, which clears \<^verbatim>\<open>first_idr\<close>,
  and the second is written with neither the prologue nor any SPS or PPS before it.
\<close>

theorem BitstreamConvert_unit_prologue_counterexample:
  "Open ext0 (new_conv (hints0 AV_CODEC_ID_H264 (Some avcc0))) True = Some (True, opened0) \<and>
   Convert_calls ext0 opened0 [idr0, idr0] =
     Some [(True, Some [0, 0, 0, 1, 0x67, 0x64, 0x00, 0x28, 0, 0, 0, 1, 0x68, 0xEE, 0, 0, 0, 1, 0x65, 0x88]),
           (True, Some [0, 0, 0, 1, 0x65, 0x88])]"
  by (intro conjI, rule Open_opened0)
    (simp add: Convert_def Let_def BitstreamConvert_def
      BitstreamConvert_loop.simps BitstreamConvert_unit_def idr0_def be_size_def
      unit_type_of_def start_decode_trigger_def IsIDR_def IsSlice_def nal_sps_def nal_type_defs
      opened0_def new_conv_def hints0_def emit_unit_def note_sps_pps_def nal_pps_def
      dispatch_unit_def BitstreamAllocAndCopy_def GetConvertBuffer_def)

subsection \<open>The enhancement-layer flag of the hints\<close>


lemma Apply_flags [simp]:
  "m_removeDovi (ApplyMasteringDisplayColourVolume st v) = m_removeDovi st"
  "m_removeDovi (ApplyContentLightLevel st w) = m_removeDovi st"
  by (simp_all add: ApplyMasteringDisplayColourVolume_def ApplyContentLightLevel_def Let_def)

lemma ProcessSeiPrefix_removeDovi [simp]:
  "m_removeDovi (fst (ProcessSeiPrefix x st nal out meta)) = m_removeDovi st"
  by (simp add: ProcessSeiPrefix_def Let_def split: option.splits)



















subsection \<open>Truncated packets\<close>






lemma first_frame_sel [simp]:
  "m_first_frame (fst (ProcessSeiPrefix x st nal out meta)) = m_first_frame st"
  "m_first_frame (get_dovi_rpu_info x st nal) = m_first_frame st"
  "m_first_frame (fst (ProcessDoViRpu x st nal out)) = m_first_frame st"
  by (simp_all add: ProcessSeiPrefix_def get_dovi_rpu_info_def ProcessDoViRpu_def Let_def
      split: option.splits prod.splits)

lemma first_frame_unit [simp]:
  "m_first_frame (fst (dispatch_unit x st nal t out meta)) = m_first_frame st"
  "m_first_frame (fst (emit_unit x st nal t out meta)) = m_first_frame st"
  by (simp_all add: dispatch_unit_def emit_unit_def case_prod_unfold Let_def)


lemma BitstreamAllocAndCopy_ne [simp]: "BitstreamAllocAndCopy out sp nal t \<noteq> []"
  by (simp add: BitstreamAllocAndCopy_def Let_def BS_WB32_def)




















end
